theory Spec2Isabelle
  imports Complex_Main "HOL-Library.Char_ord" "HOL-Library.List_Lexorder"
begin

unbundle bit_operations_syntax

section \<open>JavaScript values\<close>

text \<open>
  The SDKs exchange JSON payloads. A JavaScript value is modelled as a finite tree; an
  object is the list of its own enumerable properties in enumeration order. Numbers are
  restricted to integers, the only numbers the SDKs produce themselves (timestamps);
  exceptions thrown by the JavaScript runtime are values of \<open>error\<close>. Properties inherited
  from \<open>Object.prototype\<close>, \<open>toJSON\<close> methods and cyclic structures are outside the model.
\<close>

datatype error = Error string | TypeError string | SyntaxError string

datatype jsval =
    JUndefined
  | JNull
  | JBool bool
  | JNum int
  | JStr string
  | JArr "jsval list"
  | JObj "(string \<times> jsval) list"

subsection \<open>Decimal rendering and \<open>parseInt\<close>\<close>

definition digit_char :: "nat \<Rightarrow> char" where
  "digit_char d = ''0123456789'' ! d"

function dec_digits :: "int \<Rightarrow> string" where
  "dec_digits n =
     (if n < 10 then [digit_char (nat n)]
      else dec_digits (n div 10) @ [digit_char (nat (n mod 10))])"
  by pat_completeness auto
termination
  by (relation "measure nat") auto

declare dec_digits.simps [simp del]

text \<open>\<open>Number.prototype.toString\<close> on an integer.\<close>

definition dec_int :: "int \<Rightarrow> string" where
  "dec_int i = (if i < 0 then CHR ''-'' # dec_digits (- i) else dec_digits i)"

definition is_digit :: "char \<Rightarrow> bool" where
  "is_digit c \<longleftrightarrow> CHR ''0'' \<le> c \<and> c \<le> CHR ''9''"

definition digit_val :: "char \<Rightarrow> int" where
  "digit_val c = of_char c - 48"

definition is_white_space :: "char \<Rightarrow> bool" where
  "is_white_space c \<longleftrightarrow> c \<in> set [CHR 0x09, CHR 0x0A, CHR 0x0B, CHR 0x0C, CHR 0x0D, CHR '' '']"

definition digits_val :: "string \<Rightarrow> int" where
  "digits_val ds = foldl (\<lambda>a c. 10 * a + digit_val c) 0 ds"

text \<open>
  \<open>parseInt(s, 10)\<close>: leading white space is skipped, one sign is read, then the longest
  run of decimal digits; \<open>None\<close> is \<open>NaN\<close> (no digit found).
\<close>

definition parseInt :: "string \<Rightarrow> int option" where
  "parseInt s =
     (let s1 = dropWhile is_white_space s;
          neg = (case s1 of c # _ \<Rightarrow> c = CHR ''-'' | [] \<Rightarrow> False);
          s2 = (case s1 of c # r \<Rightarrow> if c = CHR ''-'' \<or> c = CHR ''+'' then r else s1 | [] \<Rightarrow> s1);
          ds = takeWhile is_digit s2
      in if ds = [] then None
         else Some (if neg then - digits_val ds else digits_val ds))"

subsection \<open>\<open>JSON.stringify\<close>\<close>

definition hex_digit :: "nat \<Rightarrow> char" where
  "hex_digit d = ''0123456789abcdef'' ! d"

definition quote_char :: "char \<Rightarrow> string" where
  "quote_char c =
     (if c = CHR 0x22 then [CHR 0x5C, CHR 0x22]
      else if c = CHR 0x5C then [CHR 0x5C, CHR 0x5C]
      else if c = CHR 0x08 then [CHR 0x5C, CHR ''b'']
      else if c = CHR 0x0C then [CHR 0x5C, CHR ''f'']
      else if c = CHR 0x0A then [CHR 0x5C, CHR ''n'']
      else if c = CHR 0x0D then [CHR 0x5C, CHR ''r'']
      else if c = CHR 0x09 then [CHR 0x5C, CHR ''t'']
      else if (of_char c :: nat) < 32
        then [CHR 0x5C, CHR ''u'', CHR ''0'', CHR ''0'',
              hex_digit (of_char c div 16), hex_digit (of_char c mod 16)]
      else [c])"

definition QuoteJSONString :: "string \<Rightarrow> string" where
  "QuoteJSONString s = CHR 0x22 # concat (map quote_char s) @ [CHR 0x22]"

fun join :: "string \<Rightarrow> string list \<Rightarrow> string" where
  "join sep [] = []"
| "join sep [x] = x"
| "join sep (x # y # ys) = x @ sep @ join sep (y # ys)"

text \<open>
  An array passed as the replacer becomes the property list: its elements in order,
  later duplicates dropped.
\<close>

fun property_list :: "string list \<Rightarrow> string list" where
  "property_list [] = []"
| "property_list (k # ks) = k # property_list (filter (\<lambda>x. x \<noteq> k) ks)"

text \<open>
  The serialisation of one value under an optional property list. With a property list
  every object, at every depth, emits exactly the listed keys that it owns, in the order
  of the list; without one it emits its own keys in enumeration order. A property whose
  value serialises to \<open>undefined\<close> is omitted; in an array it is written \<open>null\<close>.
\<close>

fun SerializeJSONProperty :: "string list option \<Rightarrow> jsval \<Rightarrow> string option" where
  "SerializeJSONProperty pl JUndefined = None"
| "SerializeJSONProperty pl JNull = Some ''null''"
| "SerializeJSONProperty pl (JBool b) = Some (if b then ''true'' else ''false'')"
| "SerializeJSONProperty pl (JNum n) = Some (dec_int n)"
| "SerializeJSONProperty pl (JStr s) = Some (QuoteJSONString s)"
| "SerializeJSONProperty pl (JArr vs) =
     Some (''['' @ join '',''
        (map (\<lambda>v. case SerializeJSONProperty pl v of None \<Rightarrow> ''null'' | Some s \<Rightarrow> s) vs) @ '']'')"
| "SerializeJSONProperty pl (JObj kvs) =
     (let strs = map (\<lambda>kv. (fst kv, SerializeJSONProperty pl (snd kv))) kvs;
          K = (case pl of None \<Rightarrow> map fst kvs | Some ks \<Rightarrow> ks);
          partial = concat (map (\<lambda>P. case map_of strs P of
                       Some (Some strP) \<Rightarrow> [QuoteJSONString P @ '':'' @ strP]
                     | _ \<Rightarrow> []) K)
      in Some (''{'' @ join '','' partial @ ''}''))"

definition JSON_stringify :: "jsval \<Rightarrow> string list option \<Rightarrow> string option" where
  "JSON_stringify v replacer = SerializeJSONProperty (map_option property_list replacer) v"

fun Object_keys :: "jsval \<Rightarrow> error + string list" where
  "Object_keys JUndefined = Inl (TypeError ''Cannot convert undefined or null to object'')"
| "Object_keys JNull = Inl (TypeError ''Cannot convert undefined or null to object'')"
| "Object_keys (JBool b) = Inr []"
| "Object_keys (JNum n) = Inr []"
| "Object_keys (JStr s) = Inr (map (\<lambda>i. dec_int (int i)) [0..<length s])"
| "Object_keys (JArr vs) = Inr (map (\<lambda>i. dec_int (int i)) [0..<length vs])"
| "Object_keys (JObj kvs) = Inr (map fst kvs)"

text \<open>Reading a property: \<open>null\<close> and \<open>undefined\<close> throw, a missing property is \<open>undefined\<close>.\<close>

fun get_prop :: "jsval \<Rightarrow> string \<Rightarrow> error + jsval" where
  "get_prop JUndefined k = Inl (TypeError ''Cannot read properties of undefined'')"
| "get_prop JNull k = Inl (TypeError ''Cannot read properties of null'')"
| "get_prop (JObj kvs) k = Inr (case map_of kvs k of None \<Rightarrow> JUndefined | Some v \<Rightarrow> v)"
| "get_prop v k = Inr JUndefined"

text \<open>
  Own property keys enumerate array indices first, in ascending numeric order, then the
  other keys in creation order; assignment to an object keeps an existing key in place.
\<close>

definition is_array_index :: "string \<Rightarrow> bool" where
  "is_array_index k \<longleftrightarrow>
     k \<noteq> [] \<and> list_all is_digit k \<and> (k = ''0'' \<or> hd k \<noteq> CHR ''0'') \<and> digits_val k < 4294967295"

definition index_before :: "string \<Rightarrow> string \<times> jsval \<Rightarrow> bool" where
  "index_before k kv \<longleftrightarrow> is_array_index (fst kv) \<and> digits_val (fst kv) < digits_val k"

definition set_prop :: "(string \<times> jsval) list \<Rightarrow> string \<Rightarrow> jsval \<Rightarrow> (string \<times> jsval) list" where
  "set_prop kvs k v =
     (if k \<in> set (map fst kvs) then map (\<lambda>kv. if fst kv = k then (k, v) else kv) kvs
      else if is_array_index k
        then takeWhile (index_before k) kvs @ [(k, v)] @ dropWhile (index_before k) kvs
      else kvs @ [(k, v)])"

section \<open>Signer (did-sdk)\<close>

record Signature =
  timestamp :: string
  nonce :: string
  hash :: string

record SignOptions =
  opt_timestamp :: "string option"
  opt_nonce :: "string option"

text \<open>\<open>x || d\<close> on an optional string: \<open>undefined\<close> and the empty string are falsy.\<close>

definition truthy_or :: "string option \<Rightarrow> string \<Rightarrow> string" where
  "truthy_or x d = (case x of None \<Rightarrow> d | Some s \<Rightarrow> if s = [] then d else s)"

text \<open>A value interpolated into a template literal.\<close>

definition template_string :: "string option \<Rightarrow> string" where
  "template_string x = (case x of None \<Rightarrow> ''undefined'' | Some s \<Rightarrow> s)"

fun typeof_object :: "jsval \<Rightarrow> bool" where
  "typeof_object JNull = True"
| "typeof_object (JArr vs) = True"
| "typeof_object (JObj kvs) = True"
| "typeof_object v = False"

fun ToString :: "jsval \<Rightarrow> string" where
  "ToString (JStr s) = s"
| "ToString JUndefined = ''undefined''"
| "ToString JNull = ''null''"
| "ToString (JBool b) = (if b then ''true'' else ''false'')"
| "ToString (JNum n) = dec_int n"
| "ToString (JArr vs) =
     join '','' (map (\<lambda>v. case v of JUndefined \<Rightarrow> [] | JNull \<Rightarrow> [] | _ \<Rightarrow> ToString v) vs)"
| "ToString (JObj kvs) = ''[object Object]''"

text \<open>
  \<open>signer.ts\<close>, \<open>stableStringify\<close>: \<open>JSON.stringify(obj, Object.keys(obj).sort())\<close>. The sorted
  top-level keys are passed as the replacer array.
\<close>

definition stableStringify :: "jsval \<Rightarrow> error + string option" where
  "stableStringify obj =
     (case Object_keys obj of
        Inl e \<Rightarrow> Inl e
      | Inr keys \<Rightarrow> Inr (JSON_stringify obj (Some (sort keys))))"

text \<open>
  \<open>dist/src/signer.js\<close>, \<open>sortKeys\<close> and \<open>stableStringify\<close>: the compiled build rebuilds every
  object with its keys assigned in sorted order, then serialises without a replacer. The
  recursive call on \<open>record[key]\<close> is made on every property first and looked up by key.
\<close>

fun sortKeys :: "jsval \<Rightarrow> jsval" where
  "sortKeys (JArr vs) = JArr (map sortKeys vs)"
| "sortKeys (JObj kvs) =
     (let sorted_values = map (\<lambda>kv. (fst kv, sortKeys (snd kv))) kvs
      in JObj (foldl (\<lambda>next key.
                  set_prop next key (case map_of sorted_values key of
                                       None \<Rightarrow> JUndefined | Some v \<Rightarrow> v))
                [] (sort (map fst kvs))))"
| "sortKeys v = v"

definition stableStringify_dist :: "jsval \<Rightarrow> string option" where
  "stableStringify_dist v = JSON_stringify (sortKeys v) None"

text \<open>
  \<open>Signer.sign\<close>. The HMAC-SHA256 of the \<open>crypto\<close> module (hex digest), the clock
  \<open>Date.now()\<close> and the result of \<open>uuidv4()\<close> are parameters.
\<close>

definition sign ::
  "(string \<Rightarrow> string \<Rightarrow> string) \<Rightarrow> int \<Rightarrow> string \<Rightarrow>
     string \<Rightarrow> jsval \<Rightarrow> SignOptions option \<Rightarrow> error + Signature" where
  "sign hmac_sha256_hex now uuid signingKey message options =
     (let ts = truthy_or (Option.bind options opt_timestamp) (dec_int now);
          nc = truthy_or (Option.bind options opt_nonce) uuid
      in case (if typeof_object message then stableStringify message
               else Inr (Some (ToString message))) of
           Inl e \<Rightarrow> Inl e
         | Inr messageStr \<Rightarrow>
             Inr \<lparr>timestamp = ts, nonce = nc,
                  hash = hmac_sha256_hex signingKey
                           (ts @ '':'' @ nc @ '':'' @ template_string messageStr)\<rparr>)"

definition sign_dist ::
  "(string \<Rightarrow> string \<Rightarrow> string) \<Rightarrow> int \<Rightarrow> string \<Rightarrow>
     string \<Rightarrow> jsval \<Rightarrow> SignOptions option \<Rightarrow> Signature" where
  "sign_dist hmac_sha256_hex now uuid signingKey message options =
     (let ts = truthy_or (Option.bind options opt_timestamp) (dec_int now);
          nc = truthy_or (Option.bind options opt_nonce) uuid;
          messageStr = (if typeof_object message then stableStringify_dist message
                        else Some (ToString message))
      in \<lparr>timestamp = ts, nonce = nc,
          hash = hmac_sha256_hex signingKey
                   (ts @ '':'' @ nc @ '':'' @ template_string messageStr)\<rparr>)"

definition constantTimeEqual :: "string \<Rightarrow> string \<Rightarrow> bool" where
  "constantTimeEqual a b =
     (if length a \<noteq> length b then False
      else foldl (\<lambda>result (x, y). result OR (of_char x XOR of_char y)) (0::int) (zip a b) = 0)"

text \<open>
  \<open>Signer.verify\<close>. A timestamp that does not parse gives \<open>NaN\<close>, and every comparison
  with \<open>NaN\<close> is false, so such a signature is never expired. The inner call of \<open>sign\<close>
  reads the clock and \<open>uuidv4()\<close> only when the timestamp or the nonce of the signature is
  empty. An omitted \<open>maxAgeMs\<close> is \<open>None\<close>.
\<close>

definition verify ::
  "(string \<Rightarrow> string \<Rightarrow> string) \<Rightarrow> int \<Rightarrow> string \<Rightarrow>
     string \<Rightarrow> Signature \<Rightarrow> jsval \<Rightarrow> int option \<Rightarrow> error + bool" where
  "verify hmac_sha256_hex now uuid signingKey signature message maxAgeMs_arg =
     (let maxAgeMs = (case maxAgeMs_arg of None \<Rightarrow> 5 * 60 * 1000 | Some m \<Rightarrow> m);
          signedAt = parseInt (timestamp signature);
          expired = (case signedAt of None \<Rightarrow> False | Some t \<Rightarrow> now - t > maxAgeMs)
      in if expired then Inr False
         else case sign hmac_sha256_hex now uuid signingKey message
                     (Some \<lparr>opt_timestamp = Some (timestamp signature),
                            opt_nonce = Some (nonce signature)\<rparr>) of
                Inl e \<Rightarrow> Inl e
              | Inr expected \<Rightarrow> Inr (constantTimeEqual (hash signature) (hash expected)))"

text \<open>The messages of type \<open>string | object\<close>: strings, arrays and objects.\<close>

fun is_message :: "jsval \<Rightarrow> bool" where
  "is_message (JStr s) = True"
| "is_message (JArr vs) = True"
| "is_message (JObj kvs) = True"
| "is_message v = False"

section \<open>Identity (did-sdk)\<close>

subsection \<open>Regular expressions\<close>

text \<open>
  The name check of \<open>AeonDID.create\<close> is a regular expression test. Both alternatives of
  the pattern are anchored at both ends, so \<open>test\<close> is a match of the whole string (the
  pattern has no \<open>m\<close> flag: \<open>$\<close> is the end of the input only). Matching is by derivatives.
\<close>

datatype regex =
    Fail
  | Eps
  | Cls "(char \<times> char) list"
  | Alt regex regex
  | Cat regex regex
  | Star regex

fun in_class :: "char \<Rightarrow> (char \<times> char) list \<Rightarrow> bool" where
  "in_class c [] = False"
| "in_class c ((lo, hi) # rs) = ((lo \<le> c \<and> c \<le> hi) \<or> in_class c rs)"

fun nullable :: "regex \<Rightarrow> bool" where
  "nullable Fail = False"
| "nullable Eps = True"
| "nullable (Cls rs) = False"
| "nullable (Alt r s) = (nullable r \<or> nullable s)"
| "nullable (Cat r s) = (nullable r \<and> nullable s)"
| "nullable (Star r) = True"

fun deriv :: "char \<Rightarrow> regex \<Rightarrow> regex" where
  "deriv c Fail = Fail"
| "deriv c Eps = Fail"
| "deriv c (Cls rs) = (if in_class c rs then Eps else Fail)"
| "deriv c (Alt r s) = Alt (deriv c r) (deriv c s)"
| "deriv c (Cat r s) =
     (if nullable r then Alt (Cat (deriv c r) s) (deriv c s) else Cat (deriv c r) s)"
| "deriv c (Star r) = Cat (deriv c r) (Star r)"

fun regex_test :: "regex \<Rightarrow> string \<Rightarrow> bool" where
  "regex_test r [] = nullable r"
| "regex_test r (c # cs) = regex_test (deriv c r) cs"

text \<open>The language of a regular expression, the reference for the matcher.\<close>

inductive_set kleene :: "string set \<Rightarrow> string set" for L :: "string set" where
  kleene_nil: "[] \<in> kleene L"
| kleene_app: "u \<in> L \<Longrightarrow> v \<in> kleene L \<Longrightarrow> u @ v \<in> kleene L"

fun lang :: "regex \<Rightarrow> string set" where
  "lang Fail = {}"
| "lang Eps = {[]}"
| "lang (Cls rs) = {[c] | c. in_class c rs}"
| "lang (Alt r s) = lang r \<union> lang s"
| "lang (Cat r s) = {u @ v | u v. u \<in> lang r \<and> v \<in> lang s}"
| "lang (Star r) = kleene (lang r)"

text \<open>\<open>[a-z0-9]\<close> and \<open>[a-z0-9-]\<close>.\<close>

definition lower_alnum :: "(char \<times> char) list" where
  "lower_alnum = [(CHR ''a'', CHR ''z''), (CHR ''0'', CHR ''9'')]"

definition lower_alnum_hyphen :: "(char \<times> char) list" where
  "lower_alnum_hyphen = [(CHR ''a'', CHR ''z''), (CHR ''0'', CHR ''9''), (CHR ''-'', CHR ''-'')]"

text \<open>\<open>/^[a-z0-9][a-z0-9-]*[a-z0-9]$|^[a-z0-9]$/\<close>\<close>

definition name_regex :: regex where
  "name_regex =
     Alt (Cat (Cls lower_alnum) (Cat (Star (Cls lower_alnum_hyphen)) (Cls lower_alnum)))
         (Cls lower_alnum)"

subsection \<open>\<open>AeonDID.create\<close>\<close>

record AeonDIDDocument =
  did :: string
  name :: string
  signingKey :: string
  createdAt :: int
  metadata :: "jsval option"

record CreateDIDOptions =
  opt_signingKey :: "string option"
  opt_metadata :: "jsval option"

text \<open>
  \<open>Signer.generateKey()\<close> and \<open>new Date()\<close> are parameters. The thrown \<open>Error\<close> is the
  left summand.
\<close>

definition create ::
  "string \<Rightarrow> int \<Rightarrow> string \<Rightarrow> CreateDIDOptions option \<Rightarrow> error + AeonDIDDocument" where
  "create generateKey now nm options =
     (if nm = [] \<or> \<not> regex_test name_regex nm
      then Inl (Error (''Invalid DID name. Use lowercase letters, numbers, and hyphens. '' @
                       ''Must start and end with alphanumeric.''))
      else Inr \<lparr>did = ''did:aeon:'' @ nm,
               name = nm,
               signingKey = truthy_or (Option.bind options opt_signingKey) generateKey,
               createdAt = now,
               metadata = Option.bind options opt_metadata\<rparr>)"

text \<open>
  The rule in the words of the specification: a non-empty name of lowercase
  alphanumerics and hyphens that neither starts nor ends with a hyphen.
\<close>

definition valid_name_spec :: "string \<Rightarrow> bool" where
  "valid_name_spec s \<longleftrightarrow>
     s \<noteq> [] \<and> list_all (\<lambda>c. in_class c lower_alnum \<or> c = CHR ''-'') s
       \<and> hd s \<noteq> CHR ''-'' \<and> last s \<noteq> CHR ''-''"

section \<open>Client (a2g-sdk)\<close>

text \<open>
  The client is a record of its fields. What it does to the outside world (sockets,
  timers, promises) is appended to \<open>effects\<close>, in order; timers and promises are named by
  handles drawn from \<open>next_handle\<close>. Each event handler registered in \<open>connect\<close> is a
  function on the client state; the \<open>readyState\<close> of the socket is kept with the \<open>ws\<close>
  field. Console output is not part of the model.
\<close>

datatype readyState = CONNECTING | OPEN | CLOSING | CLOSED

record A2gClientConfig =
  apiKey :: "string option"
  signingKey :: "string option"
  connectionTimeoutMs :: "real option"
  requestTimeoutMs :: "real option"
  autoReconnect :: "bool option"

text \<open>
  The callbacks handed to \<open>setTimeout\<close>: the connection timeout of a \<open>connect\<close> promise,
  the deadline of a request (its id and promise), and the delayed reconnect.
\<close>

datatype callback = ConnectionTimeout nat | RequestTimeout string nat | Reconnect

datatype effect =
    NewWebSocket string "(string \<times> string) list"
  | SetTimeout nat callback real
  | ClearTimeout nat
  | Resolve nat jsval
  | Reject nat error
  | WsSend string
  | WsClose "int option"

text \<open>
  An entry of \<open>pendingRequests\<close>: \<open>resolve\<close> and \<open>reject\<close> settle the promise of the
  request, \<open>timeout\<close> is the handle of its deadline timer.
\<close>

record PendingRequest =
  promise :: nat
  timeout :: nat

record A2gClient =
  url :: string
  agentDid :: string
  config :: A2gClientConfig
  ws :: "readyState option"
  pendingRequests :: "(string \<times> PendingRequest) list"
  reconnectAttempt :: nat
  isReconnecting :: bool
  intentIdMap :: "(nat \<times> string) list"
  effects :: "effect list"
  next_handle :: nat

definition DEFAULT_TIMEOUT_MS :: real where
  "DEFAULT_TIMEOUT_MS = 5000"

definition MAX_RECONNECT_ATTEMPTS :: nat where
  "MAX_RECONNECT_ATTEMPTS = 5"

definition BASE_RECONNECT_DELAY_MS :: real where
  "BASE_RECONNECT_DELAY_MS = 1000"

text \<open>\<open>x || d\<close> on an optional number: \<open>undefined\<close> and \<open>0\<close> are falsy.\<close>

definition number_or :: "real option \<Rightarrow> real \<Rightarrow> real" where
  "number_or x d = (case x of None \<Rightarrow> d | Some v \<Rightarrow> if v = 0 then d else v)"

definition truthy_string :: "string option \<Rightarrow> bool" where
  "truthy_string x = (case x of None \<Rightarrow> False | Some s \<Rightarrow> s \<noteq> [])"

definition string_value :: "string option \<Rightarrow> string" where
  "string_value x = (case x of None \<Rightarrow> [] | Some s \<Rightarrow> s)"

fun truthy :: "jsval \<Rightarrow> bool" where
  "truthy JUndefined = False"
| "truthy JNull = False"
| "truthy (JBool b) = b"
| "truthy (JNum n) = (n \<noteq> 0)"
| "truthy (JStr s) = (s \<noteq> [])"
| "truthy v = True"

text \<open>
  A \<open>Map\<close> with string keys, in insertion order. A lookup or deletion with a key that is
  not a string finds nothing.
\<close>

definition Map_get :: "(string \<times> 'v) list \<Rightarrow> jsval \<Rightarrow> 'v option" where
  "Map_get m key = (case key of JStr s \<Rightarrow> map_of m s | _ \<Rightarrow> None)"

definition Map_delete :: "(string \<times> 'v) list \<Rightarrow> jsval \<Rightarrow> (string \<times> 'v) list" where
  "Map_delete m key = (case key of JStr s \<Rightarrow> filter (\<lambda>kv. fst kv \<noteq> s) m | _ \<Rightarrow> m)"

definition Map_set :: "(string \<times> 'v) list \<Rightarrow> string \<Rightarrow> 'v \<Rightarrow> (string \<times> 'v) list" where
  "Map_set m k v =
     (if k \<in> set (map fst m) then map (\<lambda>kv. if fst kv = k then (k, v) else kv) m
      else m @ [(k, v)])"

definition WeakMap_set :: "(nat \<times> string) list \<Rightarrow> nat \<Rightarrow> string \<Rightarrow> (nat \<times> string) list" where
  "WeakMap_set m obj v = (obj, v) # filter (\<lambda>kv. fst kv \<noteq> obj) m"

subsection \<open>Object literals of \<open>requestIntent\<close>\<close>

definition prop_of :: "(string \<times> jsval) list \<Rightarrow> string \<Rightarrow> jsval" where
  "prop_of kvs k = (case map_of kvs k of None \<Rightarrow> JUndefined | Some v \<Rightarrow> v)"

text \<open>\<open>{...v}\<close>: the own properties of an object, nothing for \<open>undefined\<close> and \<open>null\<close>.\<close>

fun spread :: "jsval \<Rightarrow> (string \<times> jsval) list" where
  "spread (JObj kvs) = kvs"
| "spread v = []"

definition delete_prop :: "(string \<times> jsval) list \<Rightarrow> string \<Rightarrow> (string \<times> jsval) list" where
  "delete_prop kvs k = filter (\<lambda>kv. fst kv \<noteq> k) kvs"

definition Signature_js :: "Signature \<Rightarrow> jsval" where
  "Signature_js sig =
     JObj [(''timestamp'', JStr (timestamp sig)), (''nonce'', JStr (nonce sig)),
           (''hash'', JStr (hash sig))]"

subsection \<open>\<open>connect\<close> and its event handlers\<close>

record Connection =
  connectPromise :: nat
  connectionTimeout :: nat

text \<open>
  \<open>connect\<close> up to the registration of the handlers. An exception in the executor
  rejects the returned promise and is the left summand. \<open>amb\<close> is what \<open>Date.now()\<close> and
  \<open>uuidv4()\<close> return to \<open>Signer.sign\<close>.
\<close>

definition connect ::
  "(string \<Rightarrow> string \<Rightarrow> string) \<Rightarrow> int \<times> string \<Rightarrow> A2gClient \<Rightarrow>
     error + Connection \<times> A2gClient" where
  "connect hmac amb st =
     (let headers1 = (if truthy_string (apiKey (config st))
                      then [(''Authorization'', ''Bearer '' @ string_value (apiKey (config st)))] else []);
          signed =
            (if truthy_string (signingKey (config st))
             then (case sign hmac (fst amb) (snd amb) (string_value (signingKey (config st)))
                          (JStr (agentDid st)) None of
                     Inl e \<Rightarrow> Inl e
                   | Inr sig \<Rightarrow>
                       Inr (headers1 @ [(''X-Agent-DID'', agentDid st),
                                        (''X-Timestamp'', timestamp sig),
                                        (''X-Nonce'', nonce sig),
                                        (''X-Signature'', hash sig)]))
             else Inr headers1)
      in case signed of
           Inl e \<Rightarrow> Inl e
         | Inr headers \<Rightarrow>
             (let p = next_handle st; t = next_handle st + 1
              in Inr (\<lparr>connectPromise = p, connectionTimeout = t\<rparr>,
                      st\<lparr>ws := Some CONNECTING,
                         effects := effects st @
                           [NewWebSocket (url st) headers,
                            SetTimeout t (ConnectionTimeout p)
                              (number_or (connectionTimeoutMs (config st)) 10000)],
                         next_handle := next_handle st + 2\<rparr>)))"

text \<open>\<open>close\<close> on a socket that is not yet closed moves it to \<open>CLOSING\<close>.\<close>

fun ws_close :: "readyState \<Rightarrow> readyState" where
  "ws_close CLOSED = CLOSED"
| "ws_close rs = CLOSING"

definition on_connection_timeout :: "Connection \<Rightarrow> A2gClient \<Rightarrow> A2gClient" where
  "on_connection_timeout c st =
     st\<lparr>ws := map_option ws_close (ws st),
        effects := effects st @ (case ws st of None \<Rightarrow> [] | Some rs \<Rightarrow> [WsClose None]) @
           [Reject (connectPromise c) (Error ''A2G connection timeout'')]\<rparr>"

definition on_open :: "Connection \<Rightarrow> A2gClient \<Rightarrow> A2gClient" where
  "on_open c st =
     st\<lparr>ws := Some OPEN,
        reconnectAttempt := 0,
        isReconnecting := False,
        effects := effects st @
          [ClearTimeout (connectionTimeout c), Resolve (connectPromise c) JUndefined]\<rparr>"

definition on_error :: "Connection \<Rightarrow> error \<Rightarrow> A2gClient \<Rightarrow> A2gClient" where
  "on_error c err st =
     st\<lparr>effects := effects st @
          [ClearTimeout (connectionTimeout c), Reject (connectPromise c) err]\<rparr>"

text \<open>
  The message handler. Its argument is the outcome of \<open>JSON.parse(data.toString())\<close>,
  \<open>None\<close> when that throws; the \<open>try\<close> block also catches the \<open>TypeError\<close> of reading
  \<open>id\<close> from \<open>null\<close>.
\<close>

definition on_message :: "jsval option \<Rightarrow> A2gClient \<Rightarrow> A2gClient" where
  "on_message parsed st =
     (case parsed of
        None \<Rightarrow> st
      | Some response \<Rightarrow>
          (case get_prop response ''id'' of
             Inl e \<Rightarrow> st
           | Inr rid \<Rightarrow>
               (case Map_get (pendingRequests st) rid of
                  None \<Rightarrow> st
                | Some pending \<Rightarrow>
                    st\<lparr>effects := effects st @
                         [ClearTimeout (timeout pending), Resolve (promise pending) response],
                       pendingRequests := Map_delete (pendingRequests st) rid\<rparr>)))"

text \<open>
  \<open>scheduleReconnect\<close>; \<open>random\<close> is the value of \<open>Math.random()\<close>. The timer callback
  awaits \<open>connect\<close>; when that fails it runs \<open>on_reconnect_failed\<close>.
\<close>

definition scheduleReconnect :: "real \<Rightarrow> A2gClient \<Rightarrow> A2gClient" where
  "scheduleReconnect random st =
     (if isReconnecting st \<or> reconnectAttempt st \<ge> MAX_RECONNECT_ATTEMPTS then st
      else
        (let attempt = reconnectAttempt st + 1;
             delay = min (BASE_RECONNECT_DELAY_MS * 2 ^ (attempt - 1)) 30000 + random * 1000
         in st\<lparr>isReconnecting := True,
               reconnectAttempt := attempt,
               effects := effects st @ [SetTimeout (next_handle st) Reconnect delay],
               next_handle := next_handle st + 1\<rparr>))"

definition on_reconnect_failed :: "real \<Rightarrow> A2gClient \<Rightarrow> A2gClient" where
  "on_reconnect_failed random st = scheduleReconnect random (st\<lparr>isReconnecting := False\<rparr>)"



subsection \<open>\<open>disconnect\<close>\<close>



subsection \<open>\<open>requestIntent\<close>\<close>

text \<open>
  \<open>requestIntent\<close> of \<open>src/client.ts\<close>. When the socket is not open the function awaits
  \<open>connect()\<close>; \<open>await_connect\<close> gives the client state at the resumption, or the error the
  promise is rejected with. \<open>intentId\<close> and \<open>requestId\<close> are the two \<open>uuidv4()\<close> results,
  \<open>context\<close> the identity of the caller's context object. The result is the state after
  the request is registered and sent; the returned promise is the one of the new entry.
  The signature is taken over the agent DID string.
\<close>

definition requestIntent ::
  "(string \<Rightarrow> string \<Rightarrow> string) \<Rightarrow> int \<times> string \<Rightarrow> (A2gClient \<Rightarrow> error + A2gClient) \<Rightarrow>
     string \<Rightarrow> string \<Rightarrow> int \<times> string \<Rightarrow>
     string \<Rightarrow> jsval \<Rightarrow> nat option \<Rightarrow> A2gClient \<Rightarrow> error + A2gClient" where
  "requestIntent hmac amb_connect await_connect intentId requestId amb_sign tool args context st0 =
     (case (if ws st0 \<noteq> Some OPEN
            then (case connect hmac amb_connect st0 of
                    Inl e \<Rightarrow> Inl e
                  | Inr (c, st') \<Rightarrow> await_connect st')
            else Inr st0) of
        Inl e \<Rightarrow> Inl e
      | Inr st \<Rightarrow>
          (let st1 = (case context of
                        None \<Rightarrow> st
                      | Some obj \<Rightarrow> st\<lparr>intentIdMap := WeakMap_set (intentIdMap st) obj intentId\<rparr>);
               params = [(''agent_did'', JStr (agentDid st1)), (''intent_id'', JStr intentId),
                         (''tool'', JStr tool), (''arguments'', args)];
               signed =
                 (if truthy_string (signingKey (config st1))
                  then (case sign hmac (fst amb_sign) (snd amb_sign)
                               (string_value (signingKey (config st1)))
                               (JStr (agentDid st1)) None of
                          Inl e \<Rightarrow> Inl e
                        | Inr sig \<Rightarrow>
                            Inr (set_prop params ''context''
                                   (JObj (set_prop (spread (prop_of params ''context''))
                                            ''signature'' (Signature_js sig)))))
                  else Inr params)
           in case signed of
                Inl e \<Rightarrow> Inl e
              | Inr params' \<Rightarrow>
                  (let intent = JObj [(''jsonrpc'', JStr ''2.0''), (''method'', JStr ''a2g/intent''),
                                      (''params'', JObj params'), (''id'', JStr requestId)];
                       timeoutMs = number_or (requestTimeoutMs (config st1)) DEFAULT_TIMEOUT_MS;
                       p = next_handle st1;
                       t = next_handle st1 + 1
                   in Inr (st1\<lparr>effects := effects st1 @
                                  [SetTimeout t (RequestTimeout requestId p) timeoutMs] @
                                  (case ws st1 of
                                     None \<Rightarrow> []
                                   | Some rs \<Rightarrow>
                                       [WsSend (template_string (JSON_stringify intent None))]),
                               pendingRequests :=
                                 Map_set (pendingRequests st1) requestId
                                   \<lparr>promise = p, timeout = t\<rparr>,
                               next_handle := next_handle st1 + 2\<rparr>))))"

text \<open>
  \<open>requestIntent\<close> of the compiled build (\<open>dist/client.js\<close>), which differs in the signing
  block: a copy of the parameter object, with \<open>context.signature\<close> deleted, is signed.
\<close>

definition requestIntent_dist ::
  "(string \<Rightarrow> string \<Rightarrow> string) \<Rightarrow> int \<times> string \<Rightarrow> (A2gClient \<Rightarrow> error + A2gClient) \<Rightarrow>
     string \<Rightarrow> string \<Rightarrow> int \<times> string \<Rightarrow>
     string \<Rightarrow> jsval \<Rightarrow> nat option \<Rightarrow> A2gClient \<Rightarrow> error + A2gClient" where
  "requestIntent_dist hmac amb_connect await_connect intentId requestId amb_sign tool args context st0 =
     (case (if ws st0 \<noteq> Some OPEN
            then (case connect hmac amb_connect st0 of
                    Inl e \<Rightarrow> Inl e
                  | Inr (c, st') \<Rightarrow> await_connect st')
            else Inr st0) of
        Inl e \<Rightarrow> Inl e
      | Inr st \<Rightarrow>
          (let st1 = (case context of
                        None \<Rightarrow> st
                      | Some obj \<Rightarrow> st\<lparr>intentIdMap := WeakMap_set (intentIdMap st) obj intentId\<rparr>);
               params = [(''agent_did'', JStr (agentDid st1)), (''intent_id'', JStr intentId),
                         (''tool'', JStr tool), (''arguments'', args)];
               params' =
                 (if truthy_string (signingKey (config st1))
                  then
                    (let paramsForSignature0 =
                           set_prop params ''context''
                             (if truthy (prop_of params ''context'')
                              then JObj (spread (prop_of params ''context'')) else JUndefined);
                         ctx = prop_of paramsForSignature0 ''context'';
                         paramsForSignature =
                           (if truthy ctx \<and> typeof_object ctx
                            then set_prop paramsForSignature0 ''context''
                                   (JObj (delete_prop (spread ctx) ''signature''))
                            else paramsForSignature0);
                         sig = sign_dist hmac (fst amb_sign) (snd amb_sign)
                                 (string_value (signingKey (config st1)))
                                 (JObj paramsForSignature) None
                     in set_prop params ''context''
                          (JObj (set_prop (spread (prop_of params ''context''))
                                   ''signature'' (Signature_js sig))))
                  else params);
               intent = JObj [(''jsonrpc'', JStr ''2.0''), (''method'', JStr ''a2g/intent''),
                              (''params'', JObj params'), (''id'', JStr requestId)];
               timeoutMs = number_or (requestTimeoutMs (config st1)) DEFAULT_TIMEOUT_MS;
               p = next_handle st1;
               t = next_handle st1 + 1
           in Inr (st1\<lparr>effects := effects st1 @
                          [SetTimeout t (RequestTimeout requestId p) timeoutMs] @
                          (case ws st1 of
                             None \<Rightarrow> []
                           | Some rs \<Rightarrow>
                               [WsSend (template_string (JSON_stringify intent None))]),
                       pendingRequests :=
                         Map_set (pendingRequests st1) requestId \<lparr>promise = p, timeout = t\<rparr>,
                       next_handle := next_handle st1 + 2\<rparr>)))"

subsection \<open>Observations on the effects\<close>

text \<open>How many times a promise has been resolved or rejected.\<close>

fun settles :: "nat \<Rightarrow> effect \<Rightarrow> bool" where
  "settles p (Resolve q v) = (p = q)"
| "settles p (Reject q e) = (p = q)"
| "settles p x = False"

definition settlements :: "nat \<Rightarrow> effect list \<Rightarrow> nat" where
  "settlements p es = length (filter (settles p) es)"


text \<open>
  The intent message with a given signature in \<open>params.context.signature\<close>, and the
  message the specification describes: its signature is the one of the parameter object
  without a signature field (\<open>context\<close> is then absent), made by the signer of the package.
\<close>

definition intent_message :: "string \<Rightarrow> string \<Rightarrow> string \<Rightarrow> jsval \<Rightarrow> string \<Rightarrow> Signature \<Rightarrow> jsval" where
  "intent_message agent intentId tool args requestId sig =
     JObj [(''jsonrpc'', JStr ''2.0''), (''method'', JStr ''a2g/intent''),
           (''params'', JObj [(''agent_did'', JStr agent), (''intent_id'', JStr intentId),
                             (''tool'', JStr tool), (''arguments'', args),
                             (''context'', JObj [(''signature'', Signature_js sig)])]),
           (''id'', JStr requestId)]"

definition spec_intent_message ::
  "(string \<Rightarrow> string \<Rightarrow> string) \<Rightarrow> int \<times> string \<Rightarrow> string \<Rightarrow>
     string \<Rightarrow> string \<Rightarrow> string \<Rightarrow> jsval \<Rightarrow> string \<Rightarrow> jsval" where
  "spec_intent_message hmac amb key agent intentId tool args requestId =
     intent_message agent intentId tool args requestId
       (sign_dist hmac (fst amb) (snd amb) key
          (JObj [(''agent_did'', JStr agent), (''intent_id'', JStr intentId),
                 (''tool'', JStr tool), (''arguments'', args), (''context'', JUndefined)])
          None)"

subsection \<open>Canonical form in the words of the specification\<close>

text \<open>
  The canonical form the specification describes: the keys of every object, at every
  depth, in lexicographic order; arrays in their order; nothing else changed.
\<close>

fun canonical_spec :: "jsval \<Rightarrow> string option" where
  "canonical_spec JUndefined = None"
| "canonical_spec JNull = Some ''null''"
| "canonical_spec (JBool b) = Some (if b then ''true'' else ''false'')"
| "canonical_spec (JNum n) = Some (dec_int n)"
| "canonical_spec (JStr s) = Some (QuoteJSONString s)"
| "canonical_spec (JArr vs) =
     Some (''['' @ join '',''
        (map (\<lambda>v. case canonical_spec v of None \<Rightarrow> ''null'' | Some s \<Rightarrow> s) vs) @ '']'')"
| "canonical_spec (JObj kvs) =
     (let strs = map (\<lambda>kv. (fst kv, canonical_spec (snd kv))) kvs;
          partial = concat (map (\<lambda>P. case map_of strs P of
                       Some (Some strP) \<Rightarrow> [QuoteJSONString P @ '':'' @ strP]
                     | _ \<Rightarrow> []) (sort (map fst kvs)))
      in Some (''{'' @ join '','' partial @ ''}''))"

text \<open>
  Two payloads are equal up to key order when they differ only in the order in which
  the keys of their objects, at any depth, are listed.
\<close>

fun is_primitive :: "jsval \<Rightarrow> bool" where
  "is_primitive (JArr vs) = False"
| "is_primitive (JObj kvs) = False"
| "is_primitive v = True"

inductive key_perm :: "jsval \<Rightarrow> jsval \<Rightarrow> bool" where
  key_perm_prim: "is_primitive v \<Longrightarrow> key_perm v v"
| key_perm_arr: "list_all2 key_perm vs us \<Longrightarrow> key_perm (JArr vs) (JArr us)"
| key_perm_obj:
    "distinct (map fst xs) \<Longrightarrow> distinct (map fst ys) \<Longrightarrow>
     set (map fst xs) = set (map fst ys) \<Longrightarrow>
     (\<forall>k\<in>set (map fst xs). \<exists>v w. map_of xs k = Some v \<and> map_of ys k = Some w \<and> key_perm v w) \<Longrightarrow>
     key_perm (JObj xs) (JObj ys)"

text \<open>
  Payloads whose objects, at every depth, have distinct keys none of which is an array
  index.
\<close>

fun plain_keys :: "jsval \<Rightarrow> bool" where
  "plain_keys (JArr vs) = list_all plain_keys vs"
| "plain_keys (JObj kvs) =
     (distinct (map fst kvs) \<and>
      list_all (\<lambda>kv. \<not> is_array_index (fst kv) \<and> plain_keys (snd kv)) kvs)"
| "plain_keys v = True"

section \<open>Properties of the signer\<close>

subsection \<open>Decimal strings parse back\<close>

lemma digit_cases: "0 \<le> d \<Longrightarrow> d < 10 \<Longrightarrow> d \<in> {0, 1, 2, 3, 4, 5, 6, 7, 8, 9::int}"
  by simp presburger

lemma digit_char_is_digit: "0 \<le> d \<Longrightarrow> d < 10 \<Longrightarrow> is_digit (digit_char (nat d))"
  by (drule (1) digit_cases) (auto simp: digit_char_def is_digit_def)

lemma digit_val_digit_char: "0 \<le> d \<Longrightarrow> d < 10 \<Longrightarrow> digit_val (digit_char (nat d)) = d"
  by (drule (1) digit_cases) (auto simp: digit_char_def digit_val_def)

lemma dec_digits_nonempty: "dec_digits n \<noteq> []"
  by (simp add: dec_digits.simps [of n])

lemma dec_int_nonempty: "dec_int i \<noteq> []"
  by (simp add: dec_int_def dec_digits_nonempty)

lemma dec_digits_all_digits: "0 \<le> n \<Longrightarrow> list_all is_digit (dec_digits n)"
proof (induction n rule: dec_digits.induct)
  case (1 n)
  show ?case
  proof (cases "n < 10")
    case True
    then show ?thesis using 1(2) by (simp add: dec_digits.simps [of n] digit_char_is_digit)
  next
    case False
    then have "list_all is_digit (dec_digits (n div 10))" using 1 by simp
    then show ?thesis
      using False by (simp add: dec_digits.simps [of n] digit_char_is_digit)
  qed
qed

lemma digits_val_snoc: "digits_val (ds @ [c]) = 10 * digits_val ds + digit_val c"
  by (simp add: digits_val_def)

lemma digits_val_dec_digits: "0 \<le> n \<Longrightarrow> digits_val (dec_digits n) = n"
proof (induction n rule: dec_digits.induct)
  case (1 n)
  show ?case
  proof (cases "n < 10")
    case True
    then show ?thesis
      using 1(2) by (simp add: dec_digits.simps [of n] digits_val_def digit_val_digit_char)
  next
    case False
    then have "digits_val (dec_digits (n div 10)) = n div 10" using 1 by simp
    then have "digits_val (dec_digits n) = 10 * (n div 10) + n mod 10"
      using False by (simp add: dec_digits.simps [of n] digits_val_snoc digit_val_digit_char)
    then show ?thesis by simp
  qed
qed

lemma digit_not_space: "is_digit c \<Longrightarrow> \<not> is_white_space c"
  by (auto simp: is_digit_def is_white_space_def)

lemma digit_not_sign: "is_digit c \<Longrightarrow> c \<noteq> CHR ''-'' \<and> c \<noteq> CHR ''+''"
  by (auto simp: is_digit_def)

lemma parseInt_digits:
  assumes "ds \<noteq> []" "list_all is_digit ds"
  shows "parseInt ds = Some (digits_val ds)"
proof -
  obtain c r where ds: "ds = c # r" using assms(1) by (cases ds) auto
  have c: "is_digit c" using assms(2) ds by simp
  have tw: "takeWhile is_digit ds = ds"
    using assms(2) by (simp add: list_all_iff)
  have dw: "dropWhile is_white_space ds = ds"
    using c ds digit_not_space by simp
  show ?thesis
    unfolding parseInt_def dw Let_def using digit_not_sign [OF c] tw assms(1)
    by (simp add: ds)
qed

lemma parseInt_dec_int: "parseInt (dec_int i) = Some i"
proof (cases "i < 0")
  case False
  then show ?thesis
    by (simp add: dec_int_def parseInt_digits dec_digits_nonempty dec_digits_all_digits
        digits_val_dec_digits)
next
  case True
  have tw: "takeWhile is_digit (dec_digits (- i)) = dec_digits (- i)"
    using dec_digits_all_digits [of "- i"] True by (simp add: list_all_iff)
  have "\<not> is_white_space (CHR ''-'')" by (simp add: is_white_space_def)
  then show ?thesis
    using True
    by (simp add: dec_int_def parseInt_def tw dec_digits_nonempty digits_val_dec_digits)
qed

subsection \<open>The constant-time comparison decides equality\<close>

lemma xor_int_eq_0: "(x::int) XOR y = 0 \<longleftrightarrow> x = y"
proof
  assume "x XOR y = 0"
  then have "(x XOR y) XOR y = 0 XOR y" by simp
  then show "x = y" by (simp add: xor.assoc)
qed simp

lemma or_fold_zero:
  "foldl (\<lambda>result (x, y). result OR (of_char x XOR of_char y)) (r::int) ps = 0
     \<longleftrightarrow> r = 0 \<and> (\<forall>(x, y)\<in>set ps. x = y)"
  by (induction ps arbitrary: r) (auto simp: or_eq_0_iff xor_int_eq_0)

lemma constantTimeEqual_iff: "constantTimeEqual a b \<longleftrightarrow> a = b"
proof (cases "length a = length b")
  case True
  have "(\<forall>(x, y)\<in>set (zip a b). x = y) \<longleftrightarrow> a = b"
    using True by (induction a b rule: list_induct2) auto
  then show ?thesis using True by (simp add: constantTimeEqual_def or_fold_zero)
next
  case False
  then show ?thesis by (auto simp: constantTimeEqual_def)
qed

subsection \<open>Signing\<close>

lemma sign_total: "is_message m \<Longrightarrow> \<exists>sig. sign h t0 uuid k m opts = Inr sig"
  by (cases m) (auto simp: sign_def stableStringify_def Let_def)

lemma sign_fresh_fields:
  assumes "sign h now uuid k m None = Inr sig"
  shows "timestamp sig = dec_int now" and "nonce sig = uuid"
  using assms
  by (auto simp: sign_def truthy_or_def Let_def split: sum.splits if_splits)

lemma sign_deterministic:
  assumes "sign h now uuid k m opts = Inr sig" "timestamp sig \<noteq> []" "nonce sig \<noteq> []"
  shows "sign h now' uuid' k m (Some \<lparr>opt_timestamp = Some (timestamp sig),
            opt_nonce = Some (nonce sig)\<rparr>) = Inr sig"
  using assms
  by (auto simp: sign_def truthy_or_def Let_def split: sum.splits if_splits)

text \<open>
  C3. A signature made by \<open>sign(k, m)\<close> at time \<open>t0\<close> for a string or structured message
  verifies under the same key and message at any time \<open>t1\<close> with \<open>t1 - t0\<close> at most the
  maximum age (300000 ms when none is given). \<open>uuidv4()\<close> never returns the empty string.
\<close>

theorem sign_verify_roundtrip:
  assumes "is_message m"
    and "uuid \<noteq> []"
    and "t1 - t0 \<le> (case maxAge of None \<Rightarrow> 300000 | Some a \<Rightarrow> a)"
  shows "\<exists>sig. sign h t0 uuid k m None = Inr sig \<and> verify h t1 uuid' k sig m maxAge = Inr True"
proof -
  obtain sig where sig: "sign h t0 uuid k m None = Inr sig"
    using sign_total [OF assms(1)] by blast
  have ts: "timestamp sig = dec_int t0" and nc: "nonce sig = uuid"
    using sign_fresh_fields [OF sig] by simp_all
  have fresh: "\<not> (t1 - t0 > (case maxAge of None \<Rightarrow> 5 * 60 * 1000 | Some a \<Rightarrow> a))"
    using assms(3) by (simp split: option.splits)
  have again: "sign h t1 uuid' k m (Some \<lparr>opt_timestamp = Some (timestamp sig),
            opt_nonce = Some (nonce sig)\<rparr>) = Inr sig"
    using sign_deterministic [OF sig] ts nc assms(2) dec_int_nonempty by simp
  have "verify h t1 uuid' k sig m maxAge = Inr True"
    unfolding verify_def Let_def again using fresh
    by (simp add: ts parseInt_dec_int constantTimeEqual_iff)
  with sig show ?thesis by blast
qed

theorem sign_verify_roundtrip_witness:
  "is_message (JObj [(''tool'', JStr ''read_file''), (''args'', JObj [])]) \<and>
   ''u-1'' \<noteq> [] \<and>
   (1738000000500::int) - 1738000000000 \<le> (case None of None \<Rightarrow> 300000 | Some a \<Rightarrow> a) \<and>
   (\<exists>sig. sign (\<lambda>k p. k @ p) 1738000000000 ''u-1'' ''key''
             (JObj [(''tool'', JStr ''read_file''), (''args'', JObj [])]) None = Inr sig \<and>
          verify (\<lambda>k p. k @ p) 1738000000500 ''u-2'' ''key'' sig
             (JObj [(''tool'', JStr ''read_file''), (''args'', JObj [])]) None = Inr True)"
  using sign_verify_roundtrip [of "JObj [(''tool'', JStr ''read_file''), (''args'', JObj [])]"
      "''u-1''" 1738000000500 1738000000000 None "\<lambda>k p. k @ p" "''key''" "''u-2''"]
  by simp

text \<open>
  C4. When the timestamp of a signature parses to \<open>t\<close> and \<open>now - t\<close> exceeds the maximum
  age (300000 ms by default), \<open>verify\<close> returns false without throwing, whatever the hash,
  key and message are. A timestamp in the future is not rejected by the age check when
  the maximum age is not negative: the result is then the comparison of the hash with the
  recomputed one.
\<close>

theorem verify_age_window:
  assumes "parseInt (timestamp sig) = Some t"
  shows "(now - t > (case maxAge of None \<Rightarrow> 300000 | Some a \<Rightarrow> a) \<longrightarrow>
            verify h now uuid k sig m maxAge = Inr False) \<and>
         (now < t \<and> 0 \<le> (case maxAge of None \<Rightarrow> 300000 | Some a \<Rightarrow> a) \<longrightarrow>
            verify h now uuid k sig m maxAge =
              (case sign h now uuid k m (Some \<lparr>opt_timestamp = Some (timestamp sig),
                      opt_nonce = Some (nonce sig)\<rparr>) of
                 Inl e \<Rightarrow> Inl e
               | Inr expected \<Rightarrow> Inr (hash sig = hash expected)))"
  using assms
  by (auto simp: verify_def Let_def constantTimeEqual_iff split: option.splits sum.splits)

theorem verify_age_window_witness:
  "parseInt (timestamp \<lparr>timestamp = ''1000'', nonce = ''n1'', hash = ''key1000:n1:hello''\<rparr>)
     = Some 1000 \<and>
   (301001::int) - 1000 > (case None of None \<Rightarrow> 300000 | Some a \<Rightarrow> a) \<and>
   verify (\<lambda>k p. k @ p) 301001 ''u'' ''key''
     \<lparr>timestamp = ''1000'', nonce = ''n1'', hash = ''key1000:n1:hello''\<rparr> (JStr ''hello'') None
     = Inr False \<and>
   (500::int) < 1000 \<and>
   verify (\<lambda>k p. k @ p) 500 ''u'' ''key''
     \<lparr>timestamp = ''1000'', nonce = ''n1'', hash = ''key1000:n1:hello''\<rparr> (JStr ''hello'') None
     = Inr True"
proof -
  let ?sig = "\<lparr>timestamp = ''1000'', nonce = ''n1'', hash = ''key1000:n1:hello''\<rparr>"
  have p: "parseInt (timestamp ?sig) = Some 1000"
    by (simp add: parseInt_def is_white_space_def is_digit_def digits_val_def digit_val_def)
  have s: "sign (\<lambda>k p. k @ p) 500 ''u'' ''key'' (JStr ''hello'')
             (Some \<lparr>opt_timestamp = Some ''1000'', opt_nonce = Some ''n1''\<rparr>) = Inr ?sig"
    by (simp add: sign_def truthy_or_def template_string_def)
  from verify_age_window [OF p, where now = 301001 and maxAge = None and h = "\<lambda>k p. k @ p"
         and uuid = "''u''" and k = "''key''" and m = "JStr ''hello''"]
       verify_age_window [OF p, where now = 500 and maxAge = None and h = "\<lambda>k p. k @ p"
         and uuid = "''u''" and k = "''key''" and m = "JStr ''hello''"]
       p s
  show ?thesis by simp
qed

text \<open>
  C5. For a string message the hash of the signature is the HMAC of the key over the
  signature's \<open>timestamp : nonce : message\<close>; a supplied non-empty timestamp and nonce are
  the ones used; and \<open>sign(key, "hello")\<close> with timestamp \<open>"1000"\<close> and nonce \<open>"n1"\<close> yields
  the HMAC of \<open>"1000:n1:hello"\<close>.
\<close>

theorem sign_hash_is_hmac:
  "(\<exists>sig. sign h now uuid k (JStr s) opts = Inr sig \<and>
       hash sig = h k (timestamp sig @ '':'' @ nonce sig @ '':'' @ s)) \<and>
   (ts \<noteq> [] \<and> n \<noteq> [] \<longrightarrow>
      sign h now uuid k (JStr s) (Some \<lparr>opt_timestamp = Some ts, opt_nonce = Some n\<rparr>)
        = Inr \<lparr>timestamp = ts, nonce = n, hash = h k (ts @ '':'' @ n @ '':'' @ s)\<rparr>) \<and>
   sign h now uuid k (JStr ''hello'') (Some \<lparr>opt_timestamp = Some ''1000'', opt_nonce = Some ''n1''\<rparr>)
     = Inr \<lparr>timestamp = ''1000'', nonce = ''n1'', hash = h k ''1000:n1:hello''\<rparr>"
  by (simp add: sign_def truthy_or_def template_string_def Let_def)

theorem sign_hash_is_hmac_witness:
  "''1738000000000'' \<noteq> [] \<and> ''9f1c'' \<noteq> [] \<and>
   sign (\<lambda>k p. k @ ''/'' @ p) 5 ''u'' ''key'' (JStr ''intent:tools/read_file'')
     (Some \<lparr>opt_timestamp = Some ''1738000000000'', opt_nonce = Some ''9f1c''\<rparr>)
     = Inr \<lparr>timestamp = ''1738000000000'', nonce = ''9f1c'',
            hash = ''key/1738000000000:9f1c:intent:tools/read_file''\<rparr>"
  using sign_hash_is_hmac [of "\<lambda>k p. k @ ''/'' @ p" 5 "''u''" "''key''" "''intent:tools/read_file''"
      None "''1738000000000''" "''9f1c''"]
  by simp

subsection \<open>Canonical form and key order\<close>

lemma map_of_mapped:
  "map_of (map (\<lambda>kv. (fst kv, f (snd kv))) xs) k = map_option f (map_of xs k)"
  by (induction xs) auto

lemma map_cong_all2: "list_all2 (\<lambda>a b. f a = f b) xs ys \<Longrightarrow> map f xs = map f ys"
  by (induction rule: list_all2_induct) auto

lemma sort_keys_unique:
  assumes "distinct (map fst xs)" "distinct (map fst ys)" "set (map fst xs) = set (map fst ys)"
  shows "sort (map fst xs) = sort (map fst (ys :: (string \<times> 'a) list))"
proof (rule sorted_distinct_set_unique)
  show "sorted (sort (map fst xs))" "sorted (sort (map fst ys))" by simp_all
  show "distinct (sort (map fst xs))" "distinct (sort (map fst ys))"
    using assms(1,2) by simp_all
  show "set (sort (map fst xs)) = set (sort (map fst ys))"
    using assms(3) by simp
qed

lemma serialize_key_perm:
  "key_perm v w \<Longrightarrow> SerializeJSONProperty (Some pl) v = SerializeJSONProperty (Some pl) w"
proof (induction rule: key_perm.induct)
  case (key_perm_prim v)
  show ?case by simp
next
  case (key_perm_arr vs us)
  then have "list_all2 (\<lambda>a b. SerializeJSONProperty (Some pl) a = SerializeJSONProperty (Some pl) b) vs us"
    by (simp add: list_all2_mono)
  then have "list_all2 (\<lambda>a b.
      (case SerializeJSONProperty (Some pl) a of None \<Rightarrow> ''null'' | Some s \<Rightarrow> s) =
      (case SerializeJSONProperty (Some pl) b of None \<Rightarrow> ''null'' | Some s \<Rightarrow> s)) vs us"
    by (rule list_all2_mono) simp
  then show ?case
    by (simp add: map_cong_all2)
next
  case (key_perm_obj xs ys)
  have "map_option (SerializeJSONProperty (Some pl)) (map_of xs P) =
        map_option (SerializeJSONProperty (Some pl)) (map_of ys P)" for P
  proof (cases "P \<in> set (map fst xs)")
    case True
    with key_perm_obj(4) show ?thesis by force
  next
    case False
    then have "map_of xs P = None" "map_of ys P = None"
      using key_perm_obj(3) by (simp_all add: map_of_eq_None_iff)
    then show ?thesis by simp
  qed
  then show ?case
    by (simp add: map_of_mapped)
qed


lemma foldl_agree:
  "(\<And>a x. x \<in> set xs \<Longrightarrow> f a x = g a x) \<Longrightarrow> foldl f a xs = foldl g a xs"
  by (induction xs arbitrary: a) auto

lemma sortKeys_key_perm: "key_perm v w \<Longrightarrow> sortKeys v = sortKeys w"
proof (induction rule: key_perm.induct)
  case (key_perm_prim v)
  show ?case by simp
next
  case (key_perm_arr vs us)
  then have "list_all2 (\<lambda>a b. sortKeys a = sortKeys b) vs us"
    by (simp add: list_all2_mono)
  then show ?case by (simp add: map_cong_all2)
next
  case (key_perm_obj xs ys)
  have keys: "sort (map fst xs) = sort (map fst ys)"
    using key_perm_obj(1-3) by (rule sort_keys_unique)
  have vals: "map_option sortKeys (map_of xs P) = map_option sortKeys (map_of ys P)"
    if "P \<in> set (map fst xs)" for P
    using key_perm_obj(4) that by force
  have "foldl (\<lambda>next key. set_prop next key
            (case map_option sortKeys (map_of xs key) of None \<Rightarrow> JUndefined | Some v \<Rightarrow> v))
          [] (sort (map fst xs)) =
        foldl (\<lambda>next key. set_prop next key
            (case map_option sortKeys (map_of ys key) of None \<Rightarrow> JUndefined | Some v \<Rightarrow> v))
          [] (sort (map fst xs))"
    by (rule foldl_agree) (simp add: vals)
  then show ?case
    by (simp add: map_of_mapped keys)
qed

lemma key_perm_same_keys:
  assumes "key_perm m1 m2" "typeof_object m1"
  shows "typeof_object m2 \<and> map_sum id sort (Object_keys m1) = map_sum id sort (Object_keys m2)"
  using assms
proof (cases rule: key_perm.cases)
  case (key_perm_prim)
  then show ?thesis using assms(2) by simp
next
  case (key_perm_arr vs us)
  then show ?thesis by (simp add: list_all2_lengthD)
next
  case (key_perm_obj xs ys)
  then have "sort (map fst xs) = sort (map fst ys)"
    by (intro sort_keys_unique)
  with key_perm_obj(1,2) show ?thesis by simp
qed

lemma stableStringify_key_perm:
  assumes "key_perm m1 m2" "typeof_object m1"
  shows "stableStringify m1 = stableStringify m2"
proof -
  have k: "map_sum id sort (Object_keys m1) = map_sum id sort (Object_keys m2)"
    using key_perm_same_keys [OF assms] by simp
  show ?thesis
  proof (cases "Object_keys m1")
    case (Inl e)
    with k have "Object_keys m2 = Inl e" by (cases "Object_keys m2") simp_all
    with Inl show ?thesis by (simp add: stableStringify_def)
  next
    case (Inr ks)
    with k obtain ks' where ks': "Object_keys m2 = Inr ks'" "sort ks = sort ks'"
      by (cases "Object_keys m2") simp_all
    with Inr show ?thesis
      using serialize_key_perm [OF assms(1)] by (simp add: stableStringify_def JSON_stringify_def)
  qed
qed

lemma sign_key_order_independent:
  assumes "key_perm m1 m2" "typeof_object m1"
  shows "sign h t u k m1 opts = sign h t u k m2 opts"
proof -
  have s: "stableStringify m1 = stableStringify m2"
    using assms by (rule stableStringify_key_perm)
  have t: "typeof_object m2"
    using key_perm_same_keys [OF assms] by simp
  show ?thesis
    unfolding sign_def using assms(2) t by (simp add: s)
qed

lemma sign_dist_key_order_independent:
  assumes "key_perm m1 m2" "typeof_object m1"
  shows "sign_dist h t u k m1 opts = sign_dist h t u k m2 opts"
proof -
  have s: "sortKeys m1 = sortKeys m2"
    using assms(1) by (rule sortKeys_key_perm)
  have t: "typeof_object m2"
    using key_perm_same_keys [OF assms] by simp
  show ?thesis
    unfolding sign_dist_def stableStringify_dist_def using assms(2) t by (simp add: s)
qed

text \<open>
  On payloads without array-index keys the compiled build computes the canonical form of
  the specification.
\<close>

lemma set_prop_fresh:
  "k \<notin> set (map fst kvs) \<Longrightarrow> \<not> is_array_index k \<Longrightarrow> set_prop kvs k v = kvs @ [(k, v)]"
  by (simp add: set_prop_def)

lemma foldl_set_prop:
  assumes "distinct ks" "\<forall>k\<in>set ks. \<not> is_array_index k" "set ks \<inter> set (map fst acc) = {}"
  shows "foldl (\<lambda>next key. set_prop next key (g key)) acc ks = acc @ map (\<lambda>k. (k, g k)) ks"
  using assms
proof (induction ks arbitrary: acc)
  case Nil
  show ?case by simp
next
  case (Cons k ks)
  have 1: "set_prop acc k (g k) = acc @ [(k, g k)]"
    using Cons.prems by (intro set_prop_fresh) auto
  have "foldl (\<lambda>next key. set_prop next key (g key)) (acc @ [(k, g k)]) ks =
        (acc @ [(k, g k)]) @ map (\<lambda>k. (k, g k)) ks"
    using Cons.prems by (intro Cons.IH) auto
  then show ?case by (simp add: 1)
qed

lemma sortKeys_plain:
  assumes "distinct (map fst kvs)" "\<forall>k\<in>set (map fst kvs). \<not> is_array_index k"
  shows "sortKeys (JObj kvs) =
     JObj (map (\<lambda>k. (k, case map_option sortKeys (map_of kvs k) of None \<Rightarrow> JUndefined | Some v \<Rightarrow> v))
            (sort (map fst kvs)))"
proof -
  have "distinct (sort (map fst kvs))" "\<forall>k\<in>set (sort (map fst kvs)). \<not> is_array_index k"
    using assms by simp_all
  then show ?thesis
    by (simp add: map_of_mapped foldl_set_prop)
qed

lemma map_of_keyed: "distinct ks \<Longrightarrow> k \<in> set ks \<Longrightarrow> map_of (map (\<lambda>k. (k, f k)) ks) k = Some (f k)"
  by (induction ks) auto

lemma sortKeys_canonical:
  "plain_keys v \<Longrightarrow> SerializeJSONProperty None (sortKeys v) = canonical_spec v"
proof (induction v)
  case (JArr vs)
  have "map (\<lambda>x. case SerializeJSONProperty None (sortKeys x) of None \<Rightarrow> ''null'' | Some s \<Rightarrow> s) vs =
        map (\<lambda>v. case canonical_spec v of None \<Rightarrow> ''null'' | Some s \<Rightarrow> s) vs"
    using JArr by (intro map_cong) (simp_all add: list_all_iff)
  then show ?case by (simp add: comp_def del: map_eq_conv)
next
  case (JObj kvs)
  have d: "distinct (map fst kvs)" and ni: "\<forall>k\<in>set (map fst kvs). \<not> is_array_index k"
    using JObj.prems by (auto simp: list_all_iff)
  have ih: "SerializeJSONProperty None (sortKeys v) = canonical_spec v"
    if "(k, v) \<in> set kvs" for k v
    using JObj.IH [of "(k, v)" v] JObj.prems that by (auto simp: list_all_iff)
  define g where
    "g = (\<lambda>k. case map_option sortKeys (map_of kvs k) of None \<Rightarrow> JUndefined | Some v \<Rightarrow> v)"
  let ?L = "map (\<lambda>k. (k, g k)) (sort (map fst kvs))"
  have sk: "sortKeys (JObj kvs) = JObj ?L"
    unfolding g_def by (rule sortKeys_plain [OF d ni])
  have keys: "map fst ?L = sort (map fst kvs)" by (simp add: comp_def)
  have vals: "map_of (map (\<lambda>kv. (fst kv, SerializeJSONProperty None (snd kv))) ?L) P =
              map_of (map (\<lambda>kv. (fst kv, canonical_spec (snd kv))) kvs) P"
    if "P \<in> set (sort (map fst kvs))" for P
  proof -
    from that obtain v where v: "map_of kvs P = Some v" "(P, v) \<in> set kvs"
      using d by (auto simp: map_of_eq_Some_iff)
    have "g P = sortKeys v" using v(1) by (simp add: g_def)
    moreover have "map_of ?L P = Some (g P)"
      using that d by (intro map_of_keyed) simp_all
    ultimately have m: "map_of ?L P = Some (sortKeys v)" by simp
    have l: "map_of (map (\<lambda>kv. (fst kv, SerializeJSONProperty None (snd kv))) ?L) P =
             map_option (SerializeJSONProperty None) (map_of ?L P)"
      by (rule map_of_mapped)
    have r: "map_of (map (\<lambda>kv. (fst kv, canonical_spec (snd kv))) kvs) P =
             map_option canonical_spec (map_of kvs P)"
      by (rule map_of_mapped)
    show ?thesis
      unfolding l r m v(1) using ih [OF v(2)] by simp
  qed
  have "map (\<lambda>P. case map_of (map (\<lambda>kv. (fst kv, SerializeJSONProperty None (snd kv))) ?L) P of
                 Some (Some strP) \<Rightarrow> [QuoteJSONString P @ '':'' @ strP] | _ \<Rightarrow> [])
            (sort (map fst kvs)) =
        map (\<lambda>P. case map_of (map (\<lambda>kv. (fst kv, canonical_spec (snd kv))) kvs) P of
                 Some (Some strP) \<Rightarrow> [QuoteJSONString P @ '':'' @ strP] | _ \<Rightarrow> [])
            (sort (map fst kvs))"
  proof (rule map_cong)
    fix P assume "P \<in> set (sort (map fst kvs))"
    then show "(case map_of (map (\<lambda>kv. (fst kv, SerializeJSONProperty None (snd kv))) ?L) P of
                 Some (Some strP) \<Rightarrow> [QuoteJSONString P @ '':'' @ strP] | _ \<Rightarrow> []) =
               (case map_of (map (\<lambda>kv. (fst kv, canonical_spec (snd kv))) kvs) P of
                 Some (Some strP) \<Rightarrow> [QuoteJSONString P @ '':'' @ strP] | _ \<Rightarrow> [])"
      by (simp only: vals)
  qed (rule refl)
  then show ?case
    unfolding sk SerializeJSONProperty.simps canonical_spec.simps Let_def keys option.case
    by (simp only:)
qed simp_all

lemma stableStringify_dist_canonical:
  "plain_keys v \<Longrightarrow> stableStringify_dist v = canonical_spec v"
  by (simp add: stableStringify_dist_def JSON_stringify_def sortKeys_canonical)

text \<open>
  C1. On the payload \<open>{a: {x: 1}}\<close> the \<open>stableStringify\<close> of \<open>src/signer.ts\<close> returns
  \<open>{"a":{}}\<close>: the replacer array holds the top-level keys only, and the nested key \<open>x\<close>
  is dropped instead of sorted. The canonical form of the specification and the
  \<open>stableStringify\<close> of the compiled build both give \<open>{"a":{"x":1}}\<close>. As a consequence
  \<open>sign\<close> gives \<open>{a: {x: 1}}\<close> and \<open>{a: {x: 2}}\<close> the same signature.
\<close>

theorem stableStringify_drops_nested_keys:
  "stableStringify (JObj [(''a'', JObj [(''x'', JNum 1)])]) = Inr (Some ''{\"a\":{}}'') \<and>
   canonical_spec (JObj [(''a'', JObj [(''x'', JNum 1)])]) = Some ''{\"a\":{\"x\":1}}'' \<and>
   stableStringify_dist (JObj [(''a'', JObj [(''x'', JNum 1)])]) = Some ''{\"a\":{\"x\":1}}'' \<and>
   sign h t u k (JObj [(''a'', JObj [(''x'', JNum 1)])]) opts =
     sign h t u k (JObj [(''a'', JObj [(''x'', JNum 2)])]) opts"
proof (intro conjI)
  show 1: "stableStringify (JObj [(''a'', JObj [(''x'', JNum 1)])]) = Inr (Some ''{\"a\":{}}'')"
    by code_simp
  show "canonical_spec (JObj [(''a'', JObj [(''x'', JNum 1)])]) = Some ''{\"a\":{\"x\":1}}''"
    by code_simp
  show "stableStringify_dist (JObj [(''a'', JObj [(''x'', JNum 1)])]) = Some ''{\"a\":{\"x\":1}}''"
    by code_simp
  have 2: "stableStringify (JObj [(''a'', JObj [(''x'', JNum 2)])]) = Inr (Some ''{\"a\":{}}'')"
    by code_simp
  show "sign h t u k (JObj [(''a'', JObj [(''x'', JNum 1)])]) opts =
     sign h t u k (JObj [(''a'', JObj [(''x'', JNum 2)])]) opts"
    unfolding sign_def 1 2 by simp
qed

text \<open>
  In the compiled build the keys that are array indices leave \<open>sortKeys\<close> in numeric
  order, ahead of the other keys, because the rebuilt object enumerates them so: the
  result is the same for every key order, but it is not the lexicographic one.
\<close>

lemma sortKeys_index_keys_numeric:
  "stableStringify_dist (JObj [(''9'', JNum 2), (''10'', JNum 1), (''b'', JNull)])
     = Some ''{\"9\":2,\"10\":1,\"b\":null}'' \<and>
   canonical_spec (JObj [(''9'', JNum 2), (''10'', JNum 1), (''b'', JNull)])
     = Some ''{\"10\":1,\"9\":2,\"b\":null}''"
  by code_simp

section \<open>Properties of identity creation\<close>

subsection \<open>The matcher decides the language\<close>

lemma nullable_lang: "nullable r \<longleftrightarrow> [] \<in> lang r"
  by (induction r) (auto intro: kleene.intros)

lemma kleene_cons:
  "c # w \<in> kleene L \<longleftrightarrow> (\<exists>u v. w = u @ v \<and> c # u \<in> L \<and> v \<in> kleene L)"
proof
  assume "c # w \<in> kleene L"
  then show "\<exists>u v. w = u @ v \<and> c # u \<in> L \<and> v \<in> kleene L"
  proof (induction "c # w" rule: kleene.induct)
    case (kleene_app u v)
    then show ?case
      by (cases u) auto
  qed
next
  assume "\<exists>u v. w = u @ v \<and> c # u \<in> L \<and> v \<in> kleene L"
  then obtain u v where "w = u @ v" "c # u \<in> L" "v \<in> kleene L" by blast
  then show "c # w \<in> kleene L"
    using kleene_app [of "c # u" L v] by simp
qed

lemma deriv_lang: "w \<in> lang (deriv c r) \<longleftrightarrow> c # w \<in> lang r"
proof (induction r arbitrary: w)
  case (Cat r s)
  then show ?case
    by (auto simp: nullable_lang Cons_eq_append_conv)
next
  case (Star r)
  then show ?case
    by (auto simp: kleene_cons)
qed auto

lemma regex_test_lang: "regex_test r s \<longleftrightarrow> s \<in> lang r"
  by (induction s arbitrary: r) (simp_all add: nullable_lang deriv_lang)

subsection \<open>The language of the name pattern\<close>

lemma kleene_singletons: "s \<in> kleene {[c] | c. P c} \<longleftrightarrow> (\<forall>c\<in>set s. P c)"
proof (induction s)
  case Nil
  show ?case by (simp add: kleene_nil)
next
  case (Cons a s)
  have "a # s \<in> kleene {[c] | c. P c} \<longleftrightarrow> P a \<and> s \<in> kleene {[c] | c. P c}"
    by (auto simp: kleene_cons)
  then show ?case using Cons by simp
qed

lemma hyphen_not_alnum: "\<not> in_class (CHR ''-'') lower_alnum"
  by (simp add: lower_alnum_def)

lemma in_class_hyphen:
  "in_class c lower_alnum_hyphen \<longleftrightarrow> in_class c lower_alnum \<or> c = CHR ''-''"
  by (auto simp: lower_alnum_def lower_alnum_hyphen_def)

lemma lang_cls: "s \<in> lang (Cls rs) \<longleftrightarrow> (\<exists>c. s = [c] \<and> in_class c rs)"
  by auto

lemma lang_cat:
  "s \<in> lang (Cat r1 r2) \<longleftrightarrow> (\<exists>u v. s = u @ v \<and> u \<in> lang r1 \<and> v \<in> lang r2)"
  by auto

lemma lang_star_hyphen:
  "m \<in> lang (Star (Cls lower_alnum_hyphen)) \<longleftrightarrow>
     (\<forall>c\<in>set m. in_class c lower_alnum \<or> c = CHR ''-'')"
  using kleene_singletons [of m "\<lambda>c. in_class c lower_alnum_hyphen"]
  by (simp add: in_class_hyphen)

lemma lang_long_name:
  "s \<in> lang (Cat (Cls lower_alnum) (Cat (Star (Cls lower_alnum_hyphen)) (Cls lower_alnum)))
     \<longleftrightarrow> (\<exists>a m b. s = a # m @ [b] \<and> in_class a lower_alnum \<and>
        (\<forall>c\<in>set m. in_class c lower_alnum \<or> c = CHR ''-'') \<and> in_class b lower_alnum)"
  (is "?L \<longleftrightarrow> ?R")
proof
  assume ?L
  then obtain u v where s: "s = u @ v" and u: "u \<in> lang (Cls lower_alnum)"
    and v: "v \<in> lang (Cat (Star (Cls lower_alnum_hyphen)) (Cls lower_alnum))"
    unfolding lang_cat [of s] by blast
  from v obtain m w where v': "v = m @ w" and m: "m \<in> lang (Star (Cls lower_alnum_hyphen))"
    and w: "w \<in> lang (Cls lower_alnum)"
    unfolding lang_cat [of v] by blast
  from u obtain a where a: "u = [a]" "in_class a lower_alnum" unfolding lang_cls by blast
  from w obtain b where b: "w = [b]" "in_class b lower_alnum" unfolding lang_cls by blast
  from m have "\<forall>c\<in>set m. in_class c lower_alnum \<or> c = CHR ''-''"
    unfolding lang_star_hyphen .
  with s v' a b show ?R by auto
next
  assume ?R
  then obtain a m b where s: "s = a # m @ [b]" and a: "in_class a lower_alnum"
    and m: "\<forall>c\<in>set m. in_class c lower_alnum \<or> c = CHR ''-''" and b: "in_class b lower_alnum"
    by blast
  have ends: "[a] \<in> lang (Cls lower_alnum)" "[b] \<in> lang (Cls lower_alnum)"
    using a b unfolding lang_cls by simp_all
  have "m \<in> lang (Star (Cls lower_alnum_hyphen))"
    using m unfolding lang_star_hyphen .
  with ends have "m @ [b] \<in> lang (Cat (Star (Cls lower_alnum_hyphen)) (Cls lower_alnum))"
    unfolding lang_cat [of "m @ [b]"] by blast
  with ends have "[a] @ (m @ [b]) \<in>
      lang (Cat (Cls lower_alnum) (Cat (Star (Cls lower_alnum_hyphen)) (Cls lower_alnum)))"
    unfolding lang_cat [of "[a] @ (m @ [b])"] by blast
  then show ?L using s by simp
qed

lemma lang_name_regex:
  "s \<in> lang name_regex \<longleftrightarrow>
     (\<exists>a m b. s = a # m @ [b] \<and> in_class a lower_alnum \<and>
        (\<forall>c\<in>set m. in_class c lower_alnum \<or> c = CHR ''-'') \<and> in_class b lower_alnum)
     \<or> (\<exists>c. s = [c] \<and> in_class c lower_alnum)"
  using lang_long_name [of s]
  unfolding name_regex_def lang.simps(4) Un_iff lang_cls by simp

lemma name_regex_spec: "regex_test name_regex s \<longleftrightarrow> valid_name_spec s"
proof (cases s)
  case Nil
  then show ?thesis by (simp add: regex_test_lang lang_name_regex valid_name_spec_def)
next
  case (Cons a t)
  show ?thesis
  proof (cases t rule: rev_cases)
    case Nil
    with Cons show ?thesis
      using hyphen_not_alnum
      by (auto simp: regex_test_lang lang_name_regex valid_name_spec_def)
  next
    case (snoc m b)
    have "regex_test name_regex s \<longleftrightarrow> in_class a lower_alnum \<and>
        (\<forall>c\<in>set m. in_class c lower_alnum \<or> c = CHR ''-'') \<and> in_class b lower_alnum"
      unfolding regex_test_lang lang_name_regex using Cons snoc by simp
    also have "\<dots> \<longleftrightarrow> valid_name_spec s"
      using hyphen_not_alnum Cons snoc
      by (auto simp: valid_name_spec_def list_all_iff)
    finally show ?thesis .
  qed
qed

text \<open>
  C9. \<open>AeonDID.create(name)\<close> throws exactly when the name is empty, or has a character
  that is neither a lowercase alphanumeric nor a hyphen, or starts or ends with a hyphen.
  \<open>"My_Agent"\<close> is rejected; \<open>"my-agent-2"\<close> is accepted with the DID
  \<open>"did:aeon:my-agent-2"\<close>.
\<close>

theorem create_validates_name:
  "((\<exists>e. create g t nm opts = Inl e) \<longleftrightarrow>
      (nm = [] \<or> \<not> list_all (\<lambda>c. in_class c lower_alnum \<or> c = CHR ''-'') nm
         \<or> hd nm = CHR ''-'' \<or> last nm = CHR ''-'')) \<and>
   (\<exists>e. create g t ''My_Agent'' opts = Inl e) \<and>
   (\<exists>d. create g t ''my-agent-2'' opts = Inr d \<and> did d = ''did:aeon:my-agent-2'')"
proof -
  have 1: "(\<exists>e. create g t nm opts = Inl e) \<longleftrightarrow> \<not> valid_name_spec nm"
    by (auto simp: create_def name_regex_spec valid_name_spec_def)
  have 2: "\<not> regex_test name_regex ''My_Agent''"
    by (simp add: name_regex_def lower_alnum_def lower_alnum_hyphen_def)
  have 3: "regex_test name_regex ''my-agent-2''"
    by (simp add: name_regex_def lower_alnum_def lower_alnum_hyphen_def)
  show ?thesis
    using 1 2 3 by (auto simp: create_def valid_name_spec_def)
qed

theorem create_validates_name_witness:
  "(\<exists>d. create ''k0'' 7 ''a--b'' None = Inr d \<and> did d = ''did:aeon:a--b'' \<and> name d = ''a--b'') \<and>
   (\<exists>e. create ''k0'' 7 ''agent-'' None = Inl e) \<and>
   (\<exists>e. create ''k0'' 7 [] None = Inl e)"
proof -
  have a: "list_all (\<lambda>c. in_class c lower_alnum \<or> c = CHR ''-'') ''a--b''"
    by (simp add: lower_alnum_def)
  have "\<not> (\<exists>e. create ''k0'' 7 ''a--b'' None = Inl e)"
    using create_validates_name [of "''k0''" 7 "''a--b''" None] a by simp
  moreover have "\<exists>e. create ''k0'' 7 ''agent-'' None = Inl e"
    using create_validates_name [of "''k0''" 7 "''agent-''" None] by simp
  moreover have "\<exists>e. create ''k0'' 7 [] None = Inl e"
    using create_validates_name [of "''k0''" 7 "[]" None] by simp
  ultimately show ?thesis
    by (auto simp: create_def split: if_splits)
qed

section \<open>Properties of the client\<close>

subsection \<open>Maps\<close>

lemma Map_get_delete: "Map_get (Map_delete m key) key = None"
  by (cases key) (auto simp: Map_get_def Map_delete_def map_of_eq_None_iff)

lemma settlements_append: "settlements p (xs @ ys) = settlements p xs + settlements p ys"
  by (simp add: settlements_def)

text \<open>
  C6. When the \<open>id\<close> of an inbound message is the key of a pending entry, the handler
  clears the entry's timer, resolves its promise with the parsed message and removes the
  entry. A second message with the same id then finds no entry and leaves the client
  unchanged: the promise has been settled once more than before, not twice. The handler
  is a total function on the state, so it does not throw.
\<close>

theorem message_settles_once:
  assumes "get_prop response ''id'' = Inr (JStr rid)"
    and "get_prop response' ''id'' = Inr (JStr rid)"
    and "map_of (pendingRequests st) rid = Some pending"
  shows "on_message (Some response) st =
           st\<lparr>effects := effects st @
                  [ClearTimeout (timeout pending), Resolve (promise pending) response],
              pendingRequests := filter (\<lambda>kv. fst kv \<noteq> rid) (pendingRequests st)\<rparr> \<and>
         map_of (pendingRequests (on_message (Some response) st)) rid = None \<and>
         on_message (Some response') (on_message (Some response) st) =
           on_message (Some response) st \<and>
         settlements (promise pending)
             (effects (on_message (Some response') (on_message (Some response) st))) =
           settlements (promise pending) (effects st) + 1"
proof -
  let ?st1 = "on_message (Some response) st"
  have 1: "?st1 = st\<lparr>effects := effects st @
                  [ClearTimeout (timeout pending), Resolve (promise pending) response],
              pendingRequests := filter (\<lambda>kv. fst kv \<noteq> rid) (pendingRequests st)\<rparr>"
    using assms(1,3) by (simp add: on_message_def Map_get_def Map_delete_def)
  have 2: "map_of (pendingRequests ?st1) rid = None"
    unfolding 1 by (auto simp: map_of_eq_None_iff)
  have 3: "on_message (Some response') ?st1 = ?st1"
    using assms(2) 2 by (simp add: on_message_def Map_get_def)
  have 4: "settlements (promise pending) (effects ?st1) =
             settlements (promise pending) (effects st) + 1"
    unfolding 1 by (simp add: settlements_def)
  show ?thesis using 1 2 3 4 by simp
qed

theorem message_settles_once_witness:
  "get_prop (JObj [(''jsonrpc'', JStr ''2.0''), (''id'', JStr ''r1''), (''result'', JNull)]) ''id''
     = Inr (JStr ''r1'') \<and>
   on_message (Some (JObj [(''jsonrpc'', JStr ''2.0''), (''id'', JStr ''r1''), (''result'', JNull)]))
     (on_message (Some (JObj [(''jsonrpc'', JStr ''2.0''), (''id'', JStr ''r1''), (''result'', JNull)]))
        \<lparr>url = ''ws://localhost:3000'', agentDid = ''did:aeon:a'',
         config = \<lparr>apiKey = None, signingKey = None, connectionTimeoutMs = None,
                    requestTimeoutMs = None, autoReconnect = None\<rparr>,
         ws = Some OPEN,
         pendingRequests = [(''r0'', \<lparr>promise = 0, timeout = 1\<rparr>), (''r1'', \<lparr>promise = 2, timeout = 3\<rparr>)],
         reconnectAttempt = 0, isReconnecting = False, intentIdMap = [],
         effects = [], next_handle = 4\<rparr>)
   = \<lparr>url = ''ws://localhost:3000'', agentDid = ''did:aeon:a'',
      config = \<lparr>apiKey = None, signingKey = None, connectionTimeoutMs = None,
                 requestTimeoutMs = None, autoReconnect = None\<rparr>,
      ws = Some OPEN,
      pendingRequests = [(''r0'', \<lparr>promise = 0, timeout = 1\<rparr>)],
      reconnectAttempt = 0, isReconnecting = False, intentIdMap = [],
      effects = [ClearTimeout 3,
                 Resolve 2 (JObj [(''jsonrpc'', JStr ''2.0''), (''id'', JStr ''r1''), (''result'', JNull)])],
      next_handle = 4\<rparr>"
proof -
  let ?r = "JObj [(''jsonrpc'', JStr ''2.0''), (''id'', JStr ''r1''), (''result'', JNull)]"
  let ?st = "\<lparr>url = ''ws://localhost:3000'', agentDid = ''did:aeon:a'',
         config = \<lparr>apiKey = None, signingKey = None, connectionTimeoutMs = None,
                    requestTimeoutMs = None, autoReconnect = None\<rparr>,
         ws = Some OPEN,
         pendingRequests = [(''r0'', \<lparr>promise = 0, timeout = 1\<rparr>), (''r1'', \<lparr>promise = 2, timeout = 3\<rparr>)],
         reconnectAttempt = 0, isReconnecting = False, intentIdMap = [],
         effects = [], next_handle = 4\<rparr>"
  have g: "get_prop ?r ''id'' = Inr (JStr ''r1'')" by simp
  have m: "map_of (pendingRequests ?st) ''r1'' = Some \<lparr>promise = 2, timeout = 3\<rparr>" by simp
  have "on_message (Some ?r) (on_message (Some ?r) ?st) = on_message (Some ?r) ?st"
    using message_settles_once [OF g g m] by blast
  also have "\<dots> = ?st\<lparr>effects := [ClearTimeout 3, Resolve 2 ?r],
                       pendingRequests := [(''r0'', \<lparr>promise = 0, timeout = 1\<rparr>)]\<rparr>"
    by (simp add: on_message_def Map_get_def Map_delete_def)
  finally show ?thesis using g by simp
qed

subsection \<open>Rejecting the pending requests\<close>







subsection \<open>Reconnection\<close>

text \<open>
  C8. The \<open>N\<close>-th reconnect attempt (\<open>N\<close> from 1 to 5, the attempt counter after the
  increment) is scheduled with a delay between \<open>min (1000 * 2^(N-1)) 30000\<close> and that plus
  1000, \<open>Math.random()\<close> being in \<open>[0, 1)\<close>. Once the counter has reached 5,
  \<open>scheduleReconnect\<close> changes nothing and sets no timer, also on the path of a failed
  reconnection.
\<close>

theorem reconnect_backoff_bounds:
  "(0 \<le> random \<and> random < 1 \<and> \<not> isReconnecting st \<and> reconnectAttempt st + 1 = N \<and> N \<le> 5 \<longrightarrow>
      (\<exists>delay.
         scheduleReconnect random st =
           st\<lparr>isReconnecting := True, reconnectAttempt := N,
              effects := effects st @ [SetTimeout (next_handle st) Reconnect delay],
              next_handle := next_handle st + 1\<rparr> \<and>
         min (1000 * 2 ^ (N - 1)) 30000 \<le> delay \<and>
         delay \<le> min (1000 * 2 ^ (N - 1)) 30000 + 1000)) \<and>
   (5 \<le> reconnectAttempt st \<longrightarrow>
      scheduleReconnect random st = st \<and>
      on_reconnect_failed random st = st\<lparr>isReconnecting := False\<rparr>)"
  by (auto simp: scheduleReconnect_def on_reconnect_failed_def MAX_RECONNECT_ATTEMPTS_def
      BASE_RECONNECT_DELAY_MS_def Let_def)

theorem reconnect_backoff_bounds_witness:
  "(0::real) \<le> 1 / 2 \<and> (1 / 2 :: real) < 1 \<and>
   scheduleReconnect (1 / 2)
     \<lparr>url = ''ws://localhost:3000'', agentDid = ''did:aeon:a'',
      config = \<lparr>apiKey = None, signingKey = None, connectionTimeoutMs = None,
                 requestTimeoutMs = None, autoReconnect = None\<rparr>,
      ws = None, pendingRequests = [],
      reconnectAttempt = 2, isReconnecting = False, intentIdMap = [],
      effects = [], next_handle = 7\<rparr>
   = \<lparr>url = ''ws://localhost:3000'', agentDid = ''did:aeon:a'',
      config = \<lparr>apiKey = None, signingKey = None, connectionTimeoutMs = None,
                 requestTimeoutMs = None, autoReconnect = None\<rparr>,
      ws = None, pendingRequests = [],
      reconnectAttempt = 3, isReconnecting = True, intentIdMap = [],
      effects = [SetTimeout 7 Reconnect 4500], next_handle = 8\<rparr> \<and>
   scheduleReconnect (1 / 2)
     \<lparr>url = ''ws://localhost:3000'', agentDid = ''did:aeon:a'',
      config = \<lparr>apiKey = None, signingKey = None, connectionTimeoutMs = None,
                 requestTimeoutMs = None, autoReconnect = None\<rparr>,
      ws = None, pendingRequests = [],
      reconnectAttempt = 5, isReconnecting = False, intentIdMap = [],
      effects = [], next_handle = 7\<rparr>
   = \<lparr>url = ''ws://localhost:3000'', agentDid = ''did:aeon:a'',
      config = \<lparr>apiKey = None, signingKey = None, connectionTimeoutMs = None,
                 requestTimeoutMs = None, autoReconnect = None\<rparr>,
      ws = None, pendingRequests = [],
      reconnectAttempt = 5, isReconnecting = False, intentIdMap = [],
      effects = [], next_handle = 7\<rparr>"
proof -
  let ?st = "\<lambda>n. \<lparr>url = ''ws://localhost:3000'', agentDid = ''did:aeon:a'',
      config = \<lparr>apiKey = None, signingKey = None, connectionTimeoutMs = None,
                 requestTimeoutMs = None, autoReconnect = None\<rparr>,
      ws = None, pendingRequests = [],
      reconnectAttempt = n, isReconnecting = False, intentIdMap = [],
      effects = [], next_handle = 7\<rparr>"
  have a: "scheduleReconnect (1 / 2) (?st 5) = ?st 5"
    using reconnect_backoff_bounds [of "1 / 2" "?st 5" 6] by simp
  obtain delay where d: "scheduleReconnect (1 / 2) (?st 2) =
      (?st 2)\<lparr>isReconnecting := True, reconnectAttempt := 3,
              effects := effects (?st 2) @ [SetTimeout (next_handle (?st 2)) Reconnect delay],
              next_handle := next_handle (?st 2) + 1\<rparr>"
    using reconnect_backoff_bounds [of "1 / 2" "?st 2" 3] by auto
  have "scheduleReconnect (1 / 2) (?st 2) =
      (?st 2)\<lparr>isReconnecting := True, reconnectAttempt := 3,
              effects := [SetTimeout 7 Reconnect 4500], next_handle := 8\<rparr>"
    by (simp add: scheduleReconnect_def MAX_RECONNECT_ATTEMPTS_def BASE_RECONNECT_DELAY_MS_def)
  with a d show ?thesis by simp
qed

subsection \<open>Timeouts\<close>

lemma sign_string:
  "sign h t u k (JStr s) opts =
     Inr \<lparr>timestamp = truthy_or (Option.bind opts opt_timestamp) (dec_int t),
          nonce = truthy_or (Option.bind opts opt_nonce) u,
          hash = h k (truthy_or (Option.bind opts opt_timestamp) (dec_int t) @ '':'' @
                      truthy_or (Option.bind opts opt_nonce) u @ '':'' @ s)\<rparr>"
  by (simp add: sign_def template_string_def Let_def)

lemma map_of_Map_set: "map_of (Map_set m k v) k = Some v"
proof (cases "k \<in> set (map fst m)")
  case True
  then have "map_of (map (\<lambda>kv. if fst kv = k then (k, v) else kv) m) k = Some v"
    by (induction m) auto
  with True show ?thesis by (simp add: Map_set_def)
next
  case False
  then have "map_of m k = None" by (simp add: map_of_eq_None_iff)
  with False show ?thesis by (simp add: Map_set_def map_add_def)
qed

lemma connect_returns:
  "\<exists>c st' headers. connect hmac amb st = Inr (c, st') \<and>
     connectPromise c = next_handle st \<and> connectionTimeout c = next_handle st + 1 \<and>
     config st' = config st \<and>
     effects st' = effects st @
       [NewWebSocket (url st) headers,
        SetTimeout (connectionTimeout c) (ConnectionTimeout (connectPromise c))
          (number_or (connectionTimeoutMs (config st)) 10000)]"
  by (simp add: connect_def sign_string Let_def)

lemma requestIntent_resumed:
  assumes "ws st = Some OPEN \<and> st1 = st \<or>
           ws st \<noteq> Some OPEN \<and> (\<exists>c s. connect hmac ac st = Inr (c, s) \<and> aw s = Inr st1)"
  shows "\<exists>st'. requestIntent hmac ac aw iid rid asg tool args ctx st = Inr st' \<and>
           SetTimeout (next_handle st1 + 1) (RequestTimeout rid (next_handle st1))
               (number_or (requestTimeoutMs (config st1)) DEFAULT_TIMEOUT_MS)
             \<in> set (effects st') \<and>
           map_of (pendingRequests st') rid =
             Some \<lparr>promise = next_handle st1, timeout = next_handle st1 + 1\<rparr>"
  using assms
  by (cases ctx) (auto simp: requestIntent_def sign_string Let_def map_of_Map_set)

text \<open>
  C10. With \<open>requestTimeoutMs\<close> set to 0, \<open>requestIntent\<close> (resumed in state \<open>st1\<close>: the
  current state when the socket is open, else the one after the awaited \<open>connect()\<close>, with
  the same configuration) sets the deadline timer of the new entry to 5000 ms; with
  \<open>connectionTimeoutMs\<close> set to 0, \<open>connect\<close> sets its timer to 10000 ms.
\<close>

theorem zero_timeout_falls_back:
  "(requestTimeoutMs (config st) = Some 0 \<and> config st1 = config st \<and>
    (ws st = Some OPEN \<and> st1 = st \<or>
     ws st \<noteq> Some OPEN \<and> (\<exists>c s. connect hmac ac st = Inr (c, s) \<and> aw s = Inr st1)) \<longrightarrow>
      (\<exists>st'. requestIntent hmac ac aw iid rid asg tool args ctx st = Inr st' \<and>
         SetTimeout (next_handle st1 + 1) (RequestTimeout rid (next_handle st1)) 5000
           \<in> set (effects st') \<and>
         map_of (pendingRequests st') rid =
           Some \<lparr>promise = next_handle st1, timeout = next_handle st1 + 1\<rparr>)) \<and>
   (connectionTimeoutMs (config st) = Some 0 \<longrightarrow>
      (\<exists>c st' headers. connect hmac ac st = Inr (c, st') \<and>
         effects st' = effects st @
           [NewWebSocket (url st) headers,
            SetTimeout (connectionTimeout c) (ConnectionTimeout (connectPromise c)) 10000]))"
proof (intro conjI impI)
  assume a: "requestTimeoutMs (config st) = Some 0 \<and> config st1 = config st \<and>
    (ws st = Some OPEN \<and> st1 = st \<or>
     ws st \<noteq> Some OPEN \<and> (\<exists>c s. connect hmac ac st = Inr (c, s) \<and> aw s = Inr st1))"
  then have "number_or (requestTimeoutMs (config st1)) DEFAULT_TIMEOUT_MS = 5000"
    by (simp add: number_or_def DEFAULT_TIMEOUT_MS_def)
  with a requestIntent_resumed [of st st1 hmac ac aw iid rid asg tool args ctx]
  show "\<exists>st'. requestIntent hmac ac aw iid rid asg tool args ctx st = Inr st' \<and>
         SetTimeout (next_handle st1 + 1) (RequestTimeout rid (next_handle st1)) 5000
           \<in> set (effects st') \<and>
         map_of (pendingRequests st') rid =
           Some \<lparr>promise = next_handle st1, timeout = next_handle st1 + 1\<rparr>"
    by simp
next
  assume "connectionTimeoutMs (config st) = Some 0"
  then have "number_or (connectionTimeoutMs (config st)) 10000 = 10000"
    by (simp add: number_or_def)
  with connect_returns [of hmac ac st]
  show "\<exists>c st' headers. connect hmac ac st = Inr (c, st') \<and>
         effects st' = effects st @
           [NewWebSocket (url st) headers,
            SetTimeout (connectionTimeout c) (ConnectionTimeout (connectPromise c)) 10000]"
    by auto
qed

theorem zero_timeout_falls_back_witness:
  "(\<exists>st'. requestIntent (\<lambda>k p. k @ ''|'' @ p) (0, ''c'') Inr ''i1'' ''r1'' (1000, ''n1'')
            ''write_file'' (JObj [(''path'', JStr ''/tmp/test'')]) None
            \<lparr>url = ''ws://localhost:3000'', agentDid = ''did:aeon:a'',
             config = \<lparr>apiKey = None, signingKey = None, connectionTimeoutMs = Some 0,
                        requestTimeoutMs = Some 0, autoReconnect = None\<rparr>,
             ws = Some OPEN, pendingRequests = [],
             reconnectAttempt = 0, isReconnecting = False, intentIdMap = [],
             effects = [], next_handle = 0\<rparr> = Inr st' \<and>
          SetTimeout 1 (RequestTimeout ''r1'' 0) 5000 \<in> set (effects st') \<and>
          map_of (pendingRequests st') ''r1'' = Some \<lparr>promise = 0, timeout = 1\<rparr>) \<and>
   (\<exists>c st' headers. connect (\<lambda>k p. k @ ''|'' @ p) (0, ''c'')
            \<lparr>url = ''ws://localhost:3000'', agentDid = ''did:aeon:a'',
             config = \<lparr>apiKey = None, signingKey = None, connectionTimeoutMs = Some 0,
                        requestTimeoutMs = Some 0, autoReconnect = None\<rparr>,
             ws = Some OPEN, pendingRequests = [],
             reconnectAttempt = 0, isReconnecting = False, intentIdMap = [],
             effects = [], next_handle = 0\<rparr> = Inr (c, st') \<and>
          effects st' = [NewWebSocket ''ws://localhost:3000'' headers,
                         SetTimeout (connectionTimeout c) (ConnectionTimeout (connectPromise c)) 10000])"
proof -
  let ?st = "\<lparr>url = ''ws://localhost:3000'', agentDid = ''did:aeon:a'',
             config = \<lparr>apiKey = None, signingKey = None, connectionTimeoutMs = Some 0,
                        requestTimeoutMs = Some 0, autoReconnect = None\<rparr>,
             ws = Some OPEN, pendingRequests = [],
             reconnectAttempt = 0, isReconnecting = False, intentIdMap = [],
             effects = [], next_handle = 0\<rparr>"
  show ?thesis
    using zero_timeout_falls_back [of ?st ?st "\<lambda>k p. k @ ''|'' @ p" "(0, ''c'')" Inr
        "''i1''" "''r1''" "(1000, ''n1'')" "''write_file''" "JObj [(''path'', JStr ''/tmp/test'')]" None]
    by simp
qed

subsection \<open>The signature of an intent\<close>

lemma context_not_index: "\<not> is_array_index ''context''" "\<not> is_array_index ''signature''"
  by (simp_all add: is_array_index_def is_digit_def)

lemma set_prop_signature: "set_prop [] ''signature'' s = [(''signature'', s)]"
  by (simp add: set_prop_def)

lemma set_prop_context:
  "set_prop [(''agent_did'', a), (''intent_id'', i), (''tool'', t), (''arguments'', args)]
     ''context'' v
   = [(''agent_did'', a), (''intent_id'', i), (''tool'', t), (''arguments'', args),
      (''context'', v)]"
  by (simp add: set_prop_def context_not_index)

lemma requestIntent_signs_did:
  "truthy_string (signingKey (config sr)) \<and> ws sr = Some OPEN \<and>
   (ws st = Some OPEN \<and> sr = st \<or>
    ws st \<noteq> Some OPEN \<and> (\<exists>c s. connect hmac ac st = Inr (c, s) \<and> aw s = Inr sr)) \<longrightarrow>
     (\<exists>sig st'.
        sign hmac (fst asg) (snd asg) (string_value (signingKey (config sr)))
          (JStr (agentDid sr)) None = Inr sig \<and>
        requestIntent hmac ac aw iid rid asg tool args ctx st = Inr st' \<and>
        effects st' = effects sr @
          [SetTimeout (next_handle sr + 1) (RequestTimeout rid (next_handle sr))
             (number_or (requestTimeoutMs (config sr)) DEFAULT_TIMEOUT_MS),
           WsSend (template_string
             (JSON_stringify (intent_message (agentDid sr) iid tool args rid sig) None))])"
  by (cases ctx)
    (auto simp: requestIntent_def sign_string Let_def set_prop_context set_prop_signature
       prop_of_def intent_message_def)

lemma requestIntent_dist_signs_params:
  "truthy_string (signingKey (config sr)) \<and> ws sr = Some OPEN \<and>
   (ws st = Some OPEN \<and> sr = st \<or>
    ws st \<noteq> Some OPEN \<and> (\<exists>c s. connect hmac ac st = Inr (c, s) \<and> aw s = Inr sr)) \<longrightarrow>
     (\<exists>st'.
        requestIntent_dist hmac ac aw iid rid asg tool args ctx st = Inr st' \<and>
        effects st' = effects sr @
          [SetTimeout (next_handle sr + 1) (RequestTimeout rid (next_handle sr))
             (number_or (requestTimeoutMs (config sr)) DEFAULT_TIMEOUT_MS),
           WsSend (template_string
             (JSON_stringify
                (spec_intent_message hmac asg (string_value (signingKey (config sr)))
                   (agentDid sr) iid tool args rid) None))])"
  by (cases ctx)
    (auto simp: requestIntent_dist_def Let_def set_prop_context set_prop_signature
       prop_of_def intent_message_def spec_intent_message_def)

text \<open>
  C2, as amended. With a signing key configured, \<open>requestIntent\<close> of \<open>src/client.ts\<close>
  attaches the signature \<open>Signer.sign(signingKey, agentDid)\<close>, taken over the agent DID
  string and not over the parameter object; \<open>requestIntent\<close> of the compiled build
  \<open>dist/client.js\<close> attaches the signature of the parameter object without a signature
  field. Both place the signature into \<open>params.context.signature\<close> of the message they
  send. (\<open>sr\<close> is the state in which the function resumes, with an open socket.)
\<close>

theorem requestIntent_signature:
  "truthy_string (signingKey (config sr)) \<and> ws sr = Some OPEN \<and>
   (ws st = Some OPEN \<and> sr = st \<or>
    ws st \<noteq> Some OPEN \<and> (\<exists>c s. connect hmac ac st = Inr (c, s) \<and> aw s = Inr sr)) \<longrightarrow>
     (\<exists>sig st'.
        sign hmac (fst asg) (snd asg) (string_value (signingKey (config sr)))
          (JStr (agentDid sr)) None = Inr sig \<and>
        requestIntent hmac ac aw iid rid asg tool args ctx st = Inr st' \<and>
        effects st' = effects sr @
          [SetTimeout (next_handle sr + 1) (RequestTimeout rid (next_handle sr))
             (number_or (requestTimeoutMs (config sr)) DEFAULT_TIMEOUT_MS),
           WsSend (template_string
             (JSON_stringify (intent_message (agentDid sr) iid tool args rid sig) None))]) \<and>
     (\<exists>st'.
        requestIntent_dist hmac ac aw iid rid asg tool args ctx st = Inr st' \<and>
        effects st' = effects sr @
          [SetTimeout (next_handle sr + 1) (RequestTimeout rid (next_handle sr))
             (number_or (requestTimeoutMs (config sr)) DEFAULT_TIMEOUT_MS),
           WsSend (template_string
             (JSON_stringify
                (spec_intent_message hmac asg (string_value (signingKey (config sr)))
                   (agentDid sr) iid tool args rid) None))])"
  using requestIntent_signs_did [where sr = sr and st = st and hmac = hmac and ac = ac
      and aw = aw and asg = asg and iid = iid and rid = rid and tool = tool and args = args
      and ctx = ctx]
    requestIntent_dist_signs_params [where sr = sr and st = st and hmac = hmac and ac = ac
      and aw = aw and asg = asg and iid = iid and rid = rid and tool = tool and args = args
      and ctx = ctx]
  by blast

theorem requestIntent_signature_witness:
  "(\<exists>sig st'.
     sign (\<lambda>k p. k @ ''|'' @ p) 1000 ''n1'' ''k'' (JStr ''did:aeon:a'') None = Inr sig \<and>
     requestIntent (\<lambda>k p. k @ ''|'' @ p) (0, ''c'') Inr ''i1'' ''r1'' (1000, ''n1'')
       ''write_file'' (JObj [(''path'', JStr ''/tmp/x'')]) None
       \<lparr>url = ''ws://localhost:3000'', agentDid = ''did:aeon:a'',
        config = \<lparr>apiKey = None, signingKey = Some ''k'', connectionTimeoutMs = None,
                   requestTimeoutMs = None, autoReconnect = None\<rparr>,
        ws = Some OPEN, pendingRequests = [],
        reconnectAttempt = 0, isReconnecting = False, intentIdMap = [],
        effects = [], next_handle = 0\<rparr> = Inr st' \<and>
     effects st' =
       [SetTimeout 1 (RequestTimeout ''r1'' 0) 5000,
        WsSend (template_string
          (JSON_stringify (intent_message ''did:aeon:a'' ''i1'' ''write_file''
             (JObj [(''path'', JStr ''/tmp/x'')]) ''r1'' sig) None))]) \<and>
   (\<exists>st'.
     requestIntent_dist (\<lambda>k p. k @ ''|'' @ p) (0, ''c'') Inr ''i1'' ''r1'' (1000, ''n1'')
       ''write_file'' (JObj [(''path'', JStr ''/tmp/x'')]) None
       \<lparr>url = ''ws://localhost:3000'', agentDid = ''did:aeon:a'',
        config = \<lparr>apiKey = None, signingKey = Some ''k'', connectionTimeoutMs = None,
                   requestTimeoutMs = None, autoReconnect = None\<rparr>,
        ws = Some OPEN, pendingRequests = [],
        reconnectAttempt = 0, isReconnecting = False, intentIdMap = [],
        effects = [], next_handle = 0\<rparr> = Inr st' \<and>
     effects st' =
       [SetTimeout 1 (RequestTimeout ''r1'' 0) 5000,
        WsSend (template_string
          (JSON_stringify (spec_intent_message (\<lambda>k p. k @ ''|'' @ p) (1000, ''n1'') ''k''
             ''did:aeon:a'' ''i1'' ''write_file'' (JObj [(''path'', JStr ''/tmp/x'')]) ''r1'')
             None))])"
proof -
  let ?st = "\<lparr>url = ''ws://localhost:3000'', agentDid = ''did:aeon:a'',
        config = \<lparr>apiKey = None, signingKey = Some ''k'', connectionTimeoutMs = None,
                   requestTimeoutMs = None, autoReconnect = None\<rparr>,
        ws = Some OPEN, pendingRequests = [],
        reconnectAttempt = 0, isReconnecting = False, intentIdMap = [],
        effects = [], next_handle = 0\<rparr>"
  show ?thesis
    using requestIntent_signature [where sr = ?st and st = ?st and hmac = "\<lambda>k p. k @ ''|'' @ p"
        and ac = "(0, ''c'')" and aw = Inr and asg = "(1000, ''n1'')" and iid = "''i1''"
        and rid = "''r1''" and tool = "''write_file''"
        and args = "JObj [(''path'', JStr ''/tmp/x'')]" and ctx = None]
    by (simp add: truthy_string_def string_value_def number_or_def DEFAULT_TIMEOUT_MS_def)
qed

text \<open>
  C2 as stated fails on \<open>src/client.ts\<close>. With the key \<open>k\<close>, an HMAC that keeps its
  payload readable, timestamp \<open>1000\<close> and nonce \<open>n1\<close>, the message sent carries the hash of
  \<open>1000:n1:did:aeon:a\<close>; the message of the specification carries the hash of
  \<open>1000:n1:\<close> followed by the canonical parameter object, and the two messages differ.
\<close>

theorem requestIntent_signature_counterexample:
  "requestIntent (\<lambda>k p. k @ ''|'' @ p) (0, ''c'') Inr ''i1'' ''r1'' (1000, ''n1'')
     ''write_file'' (JObj [(''path'', JStr ''/tmp/x'')]) None
     \<lparr>url = ''ws://localhost:3000'', agentDid = ''did:aeon:a'',
      config = \<lparr>apiKey = None, signingKey = Some ''k'', connectionTimeoutMs = None,
                 requestTimeoutMs = None, autoReconnect = None\<rparr>,
      ws = Some OPEN, pendingRequests = [],
      reconnectAttempt = 0, isReconnecting = False, intentIdMap = [],
      effects = [], next_handle = 0\<rparr>
   = Inr \<lparr>url = ''ws://localhost:3000'', agentDid = ''did:aeon:a'',
      config = \<lparr>apiKey = None, signingKey = Some ''k'', connectionTimeoutMs = None,
                 requestTimeoutMs = None, autoReconnect = None\<rparr>,
      ws = Some OPEN, pendingRequests = [(''r1'', \<lparr>promise = 0, timeout = 1\<rparr>)],
      reconnectAttempt = 0, isReconnecting = False, intentIdMap = [],
      effects = [SetTimeout 1 (RequestTimeout ''r1'' 0) 5000,
                 WsSend (template_string (JSON_stringify
                   (intent_message ''did:aeon:a'' ''i1'' ''write_file''
                      (JObj [(''path'', JStr ''/tmp/x'')]) ''r1''
                      \<lparr>timestamp = ''1000'', nonce = ''n1'', hash = ''k|1000:n1:did:aeon:a''\<rparr>)
                   None))],
      next_handle = 2\<rparr> \<and>
   spec_intent_message (\<lambda>k p. k @ ''|'' @ p) (1000, ''n1'') ''k'' ''did:aeon:a'' ''i1''
      ''write_file'' (JObj [(''path'', JStr ''/tmp/x'')]) ''r1''
   = intent_message ''did:aeon:a'' ''i1'' ''write_file'' (JObj [(''path'', JStr ''/tmp/x'')]) ''r1''
       \<lparr>timestamp = ''1000'', nonce = ''n1'',
        hash = ''k|1000:n1:{\"agent_did\":\"did:aeon:a\",\"arguments\":{\"path\":\"/tmp/x\"},\"intent_id\":\"i1\",\"tool\":\"write_file\"}''\<rparr> \<and>
   template_string (JSON_stringify
     (intent_message ''did:aeon:a'' ''i1'' ''write_file'' (JObj [(''path'', JStr ''/tmp/x'')]) ''r1''
        \<lparr>timestamp = ''1000'', nonce = ''n1'', hash = ''k|1000:n1:did:aeon:a''\<rparr>) None)
   \<noteq> template_string (JSON_stringify
     (spec_intent_message (\<lambda>k p. k @ ''|'' @ p) (1000, ''n1'') ''k'' ''did:aeon:a'' ''i1''
        ''write_file'' (JObj [(''path'', JStr ''/tmp/x'')]) ''r1'') None)"
proof (intro conjI)
  show "requestIntent (\<lambda>k p. k @ ''|'' @ p) (0, ''c'') Inr ''i1'' ''r1'' (1000, ''n1'')
     ''write_file'' (JObj [(''path'', JStr ''/tmp/x'')]) None
     \<lparr>url = ''ws://localhost:3000'', agentDid = ''did:aeon:a'',
      config = \<lparr>apiKey = None, signingKey = Some ''k'', connectionTimeoutMs = None,
                 requestTimeoutMs = None, autoReconnect = None\<rparr>,
      ws = Some OPEN, pendingRequests = [],
      reconnectAttempt = 0, isReconnecting = False, intentIdMap = [],
      effects = [], next_handle = 0\<rparr>
   = Inr \<lparr>url = ''ws://localhost:3000'', agentDid = ''did:aeon:a'',
      config = \<lparr>apiKey = None, signingKey = Some ''k'', connectionTimeoutMs = None,
                 requestTimeoutMs = None, autoReconnect = None\<rparr>,
      ws = Some OPEN, pendingRequests = [(''r1'', \<lparr>promise = 0, timeout = 1\<rparr>)],
      reconnectAttempt = 0, isReconnecting = False, intentIdMap = [],
      effects = [SetTimeout 1 (RequestTimeout ''r1'' 0) 5000,
                 WsSend (template_string (JSON_stringify
                   (intent_message ''did:aeon:a'' ''i1'' ''write_file''
                      (JObj [(''path'', JStr ''/tmp/x'')]) ''r1''
                      \<lparr>timestamp = ''1000'', nonce = ''n1'', hash = ''k|1000:n1:did:aeon:a''\<rparr>)
                   None))],
      next_handle = 2\<rparr>"
    by (simp add: requestIntent_def sign_string truthy_string_def string_value_def truthy_or_def
        dec_int_def dec_digits.simps digit_char_def set_prop_context set_prop_signature prop_of_def
        intent_message_def number_or_def DEFAULT_TIMEOUT_MS_def Map_set_def)
next
  show "spec_intent_message (\<lambda>k p. k @ ''|'' @ p) (1000, ''n1'') ''k'' ''did:aeon:a'' ''i1''
      ''write_file'' (JObj [(''path'', JStr ''/tmp/x'')]) ''r1''
   = intent_message ''did:aeon:a'' ''i1'' ''write_file'' (JObj [(''path'', JStr ''/tmp/x'')]) ''r1''
       \<lparr>timestamp = ''1000'', nonce = ''n1'',
        hash = ''k|1000:n1:{\"agent_did\":\"did:aeon:a\",\"arguments\":{\"path\":\"/tmp/x\"},\"intent_id\":\"i1\",\"tool\":\"write_file\"}''\<rparr>"
    by code_simp
next
  show "template_string (JSON_stringify
     (intent_message ''did:aeon:a'' ''i1'' ''write_file'' (JObj [(''path'', JStr ''/tmp/x'')]) ''r1''
        \<lparr>timestamp = ''1000'', nonce = ''n1'', hash = ''k|1000:n1:did:aeon:a''\<rparr>) None)
   \<noteq> template_string (JSON_stringify
     (spec_intent_message (\<lambda>k p. k @ ''|'' @ p) (1000, ''n1'') ''k'' ''did:aeon:a'' ''i1''
        ''write_file'' (JObj [(''path'', JStr ''/tmp/x'')]) ''r1'') None)"
    by code_simp
qed

end
